theory Spec2Isabelle
  imports Complex_Main
begin

section \<open>Model of lab13.cpp: algebra, mesh loader, orbit simulation and camera\<close>

text \<open>
  The program computes with single-precision \<^verbatim>\<open>float\<close>. A \<^verbatim>\<open>float\<close> is modelled by a
  real number and an arithmetic operation by the exact operation on reals, as in the data
  model of the specification (a vector is three reals, a matrix sixteen): rounding and NaN
  are outside the model. A float literal such as \<^verbatim>\<open>1e-6f\<close> stands for the decimal number
  it is written as. Overflow to infinity is written out in \<open>Length\<close>, where the result of
  the program depends on it: the sum of squares of a vector longer than about \<open>1.8e19\<close>
  is no finite \<^verbatim>\<open>float\<close>.
\<close>

subsection \<open>Vec3 and its operations (lines 65--100)\<close>

text \<open>The fields \<^verbatim>\<open>x\<close>, \<^verbatim>\<open>y\<close>, \<^verbatim>\<open>z\<close> of \<^verbatim>\<open>Vec3\<close> are the selectors \<open>vx\<close>, \<open>vy\<close>, \<open>vz\<close>.\<close>

datatype Vec3 = Vec3 (vx: real) (vy: real) (vz: real)

text \<open>\<^verbatim>\<open>operator+\<close>, \<^verbatim>\<open>operator-\<close> and \<^verbatim>\<open>operator*\<close> on \<^verbatim>\<open>Vec3\<close>.\<close>

definition Vec3_add :: "Vec3 \<Rightarrow> Vec3 \<Rightarrow> Vec3" where
  "Vec3_add a b = Vec3 (vx a + vx b) (vy a + vy b) (vz a + vz b)"

definition Vec3_sub :: "Vec3 \<Rightarrow> Vec3 \<Rightarrow> Vec3" where
  "Vec3_sub a b = Vec3 (vx a - vx b) (vy a - vy b) (vz a - vz b)"

definition Vec3_scale :: "Vec3 \<Rightarrow> real \<Rightarrow> Vec3" where
  "Vec3_scale a s = Vec3 (vx a * s) (vy a * s) (vz a * s)"

definition Dot :: "Vec3 \<Rightarrow> Vec3 \<Rightarrow> real" where
  "Dot a b = vx a * vx b + vy a * vy b + vz a * vz b"

definition Cross :: "Vec3 \<Rightarrow> Vec3 \<Rightarrow> Vec3" where
  "Cross a b =
     Vec3 (vy a * vz b - vz a * vy b) (vz a * vx b - vx a * vz b) (vx a * vy b - vy a * vx b)"

text \<open>
  A \<^verbatim>\<open>float\<close> operation whose exact result has magnitude \<open>2^128 - 2^103\<close> or more (the
  largest finite \<^verbatim>\<open>float\<close> plus half a unit in its last place) returns an infinity.
\<close>

definition float_overflow :: "real \<Rightarrow> bool" where
  "float_overflow r = (2 ^ 128 - 2 ^ 103 \<le> \<bar>r\<bar>)"

text \<open>A \<^verbatim>\<open>float\<close> that is a length: a real number or \<open>+infinity\<close>.\<close>

datatype float_length = Finite real | PlusInfinity

text \<open>
  \<^verbatim>\<open>Length\<close> is \<^verbatim>\<open>std::sqrt(Dot(v, v))\<close>. The three squares are not negative, so each
  of them and each partial sum is at most \<open>Dot v v\<close>: some step of \<^verbatim>\<open>Dot(v, v)\<close>
  overflows exactly when \<open>Dot v v\<close> does, the result is then \<open>+infinity\<close>, and so is its
  square root.
\<close>

definition Length :: "Vec3 \<Rightarrow> float_length" where
  "Length v = (if float_overflow (Dot v v) then PlusInfinity else Finite (sqrt (Dot v v)))"

text \<open>
  \<^verbatim>\<open>Normalize\<close>. For an infinite \<^verbatim>\<open>len\<close> the test \<^verbatim>\<open>len <= 1e-6f\<close> fails and
  \<^verbatim>\<open>1.0f / len\<close> is 0, so the vector is scaled by 0.
\<close>

definition Normalize :: "Vec3 \<Rightarrow> Vec3" where
  "Normalize v =
     (case Length v of
        Finite len \<Rightarrow> if len \<le> 1 / 1000000 then v else Vec3_scale v (1 / len)
      | PlusInfinity \<Rightarrow> Vec3_scale v 0)"

subsection \<open>Mat4 (lines 104--200)\<close>

text \<open>
  \<^verbatim>\<open>float m[16]\<close>, column-major: entry \<open>col * 4 + row\<close>. A matrix is the list of its
  sixteen entries; \<^verbatim>\<open>r.m[i] = v\<close> is the list update \<open>r[i := v]\<close>. Every index the
  source writes is a constant below 16.
\<close>

type_synonym Mat4 = "real list"

text \<open>The default member initialiser \<^verbatim>\<open>float m[16] = { 0 }\<close>.\<close>

definition Mat4_zero :: Mat4 where
  "Mat4_zero = replicate 16 0"

definition Identity :: Mat4 where
  "Identity = Mat4_zero[0 := 1, 5 := 1, 10 := 1, 15 := 1]"

definition Translation :: "real \<Rightarrow> real \<Rightarrow> real \<Rightarrow> Mat4" where
  "Translation x y z = Identity[12 := x, 13 := y, 14 := z]"

definition Scale :: "real \<Rightarrow> real \<Rightarrow> real \<Rightarrow> Mat4" where
  "Scale x y z = Mat4_zero[0 := x, 5 := y, 10 := z, 15 := 1]"

definition RotationY :: "real \<Rightarrow> Mat4" where
  "RotationY angleRad =
     (let c = cos angleRad; s = sin angleRad
      in Identity[0 := c, 2 := s, 8 := - s, 10 := c])"

definition Perspective :: "real \<Rightarrow> real \<Rightarrow> real \<Rightarrow> real \<Rightarrow> Mat4" where
  "Perspective fovyRad aspect zNear zFar =
     (let tanHalfFovy = tan (fovyRad / 2)
      in Mat4_zero[0 := 1 / (aspect * tanHalfFovy),
                   5 := 1 / tanHalfFovy,
                   10 := - (zFar + zNear) / (zFar - zNear),
                   11 := - 1,
                   14 := - (2 * zFar * zNear) / (zFar - zNear)])"


text \<open>
  \<^verbatim>\<open>operator*(Mat4, Mat4)\<close>: the body of the inner loop, the inner loop over
  \<^verbatim>\<open>row\<close> and the outer loop over \<^verbatim>\<open>col\<close>, each running through 0, 1, 2, 3.
\<close>

definition Mat4_mul_entry :: "Mat4 \<Rightarrow> Mat4 \<Rightarrow> nat \<Rightarrow> Mat4 \<Rightarrow> nat \<Rightarrow> Mat4" where
  "Mat4_mul_entry a b col r row =
     r[col * 4 + row :=
         a ! (0 * 4 + row) * b ! (col * 4 + 0) +
         a ! (1 * 4 + row) * b ! (col * 4 + 1) +
         a ! (2 * 4 + row) * b ! (col * 4 + 2) +
         a ! (3 * 4 + row) * b ! (col * 4 + 3)]"

definition Mat4_mul_col :: "Mat4 \<Rightarrow> Mat4 \<Rightarrow> Mat4 \<Rightarrow> nat \<Rightarrow> Mat4" where
  "Mat4_mul_col a b r col = foldl (Mat4_mul_entry a b col) r [0, 1, 2, 3]"

definition Mat4_mul :: "Mat4 \<Rightarrow> Mat4 \<Rightarrow> Mat4" where
  "Mat4_mul a b = foldl (Mat4_mul_col a b) Mat4_zero [0, 1, 2, 3]"

text \<open>
  The vertex shader (line 389) applies an uploaded matrix to a column vector,
  \<^verbatim>\<open>uView * vec4(aPos, 1.0)\<close>. The matrices are uploaded untransposed
  (\<^verbatim>\<open>GL_FALSE\<close>), so component \<open>row\<close> of the product is the sum over \<open>col\<close> of
  \<open>m[col * 4 + row] * v[col]\<close>.
\<close>

definition Mat4_apply ::
  "Mat4 \<Rightarrow> real \<times> real \<times> real \<times> real \<Rightarrow> real \<times> real \<times> real \<times> real"
where
  "Mat4_apply a v =
     (case v of (x, y, z, w) \<Rightarrow>
        (a ! 0 * x + a ! 4 * y + a ! 8 * z + a ! 12 * w,
         a ! 1 * x + a ! 5 * y + a ! 9 * z + a ! 13 * w,
         a ! 2 * x + a ! 6 * y + a ! 10 * z + a ! 14 * w,
         a ! 3 * x + a ! 7 * y + a ! 11 * z + a ! 15 * w))"

subsection \<open>The mesh loader LoadOBJ (lines 233--340)\<close>

text \<open>\<^verbatim>\<open>sf::Vector2f\<close>, with fields \<^verbatim>\<open>x\<close> and \<^verbatim>\<open>y\<close>.\<close>

datatype Vector2f = Vector2f (v2x: real) (v2y: real)

text \<open>
  The exceptions \<^verbatim>\<open>std::stoi\<close> throws. Nothing in the program catches them: a thrown
  exception ends the process, so it is a result of its own, neither success nor failure.
\<close>

datatype exn = invalid_argument | out_of_range

text \<open>The three lines LoadOBJ may print.\<close>

datatype diag = Failed_to_open | No_vertices | Loaded nat

text \<open>Whitespace and decimal digits of the classic locale, which the string streams use.\<close>

definition isspace :: "char \<Rightarrow> bool" where
  "isspace c = (c \<in> set [CHR '' '', CHR 0x09, CHR 0x0A, CHR 0x0B, CHR 0x0C, CHR 0x0D])"

definition isdigit :: "char \<Rightarrow> bool" where
  "isdigit c = (48 \<le> (of_char c :: nat) \<and> (of_char c :: nat) \<le> 57)"

definition digits_value :: "string \<Rightarrow> int" where
  "digits_value ds = foldl (\<lambda>a c. 10 * a + (int (of_char c) - 48)) 0 ds"

text \<open>
  \<^verbatim>\<open>std::stoi(str)\<close> in base 10: leading whitespace is skipped, one sign is accepted,
  the longest run of digits is converted and whatever follows is ignored. No digit at all
  throws \<^verbatim>\<open>invalid_argument\<close>; a value that does not fit a 32-bit \<^verbatim>\<open>int\<close> throws
  \<^verbatim>\<open>out_of_range\<close>.
\<close>

definition stoi :: "string \<Rightarrow> exn + int" where
  "stoi str =
     (let t = dropWhile isspace str;
          neg = (t \<noteq> [] \<and> hd t = CHR ''-'');
          u = (if t \<noteq> [] \<and> (hd t = CHR ''-'' \<or> hd t = CHR ''+'') then tl t else t);
          ds = takeWhile isdigit u;
          n = (if neg then - digits_value ds else digits_value ds)
      in if ds = [] then Inl invalid_argument
         else if n < - 2147483648 \<or> 2147483647 < n then Inl out_of_range
         else Inr n)"

text \<open>
  The successive results of \<^verbatim>\<open>std::getline(file, line)\<close> on the remaining text of the
  file; \<open>cur\<close> is the part of the current line read so far. A final line without a newline
  is still delivered; at the end of the text nothing more is.
\<close>

fun getlines :: "string \<Rightarrow> string \<Rightarrow> string list" where
  "getlines cur [] = (if cur = [] then [] else [cur])"
| "getlines cur (c # cs) =
     (if c = CHR 0x0A then cur # getlines [] cs else getlines (cur @ [c]) cs)"

text \<open>
  The successive results of \<^verbatim>\<open>iss >> word\<close> on a line: the maximal runs of
  non-whitespace characters. The first is \<^verbatim>\<open>prefix\<close>; for a face record the others
  are \<^verbatim>\<open>tokens\<close>.
\<close>

fun read_words :: "string \<Rightarrow> string \<Rightarrow> string list" where
  "read_words cur [] = (if cur = [] then [] else [cur])"
| "read_words cur (c # cs) =
     (if isspace c then (if cur = [] then read_words [] cs else cur # read_words [] cs)
      else read_words (cur @ [c]) cs)"

text \<open>What is left in the stream once \<^verbatim>\<open>iss >> prefix\<close> has read the prefix.\<close>

definition after_prefix :: "string \<Rightarrow> string" where
  "after_prefix line = dropWhile (\<lambda>c. \<not> isspace c) (dropWhile isspace line)"

text \<open>The lambda \<^verbatim>\<open>parseIndex\<close> (lines 273--295); the result is \<open>(vi, ti)\<close>.\<close>

definition parseIndex :: "string \<Rightarrow> exn + int \<times> int" where
  "parseIndex s =
     (case dropWhile (\<lambda>c. c \<noteq> CHR ''/'') s of
        [] \<Rightarrow> (case stoi s of Inl e \<Rightarrow> Inl e | Inr vi \<Rightarrow> Inr (vi, 0))
      | _ # after \<Rightarrow>
          (let vStr = takeWhile (\<lambda>c. c \<noteq> CHR ''/'') s;
               vtStr = takeWhile (\<lambda>c. c \<noteq> CHR ''/'') after
           in case (if vStr \<noteq> [] then stoi vStr else Inr 0) of
                Inl e \<Rightarrow> Inl e
              | Inr vi \<Rightarrow>
                  (case (if vtStr \<noteq> [] then stoi vtStr else Inr 0) of
                     Inl e \<Rightarrow> Inl e
                   | Inr ti \<Rightarrow> Inr (vi, ti))))"

text \<open>
  The cast \<^verbatim>\<open>(int)positions.size()\<close> of a \<^verbatim>\<open>size_t\<close> to a 32-bit \<^verbatim>\<open>int\<close>: the value
  modulo \<open>2^32\<close>, read as a signed number.
\<close>

definition int_cast :: "nat \<Rightarrow> int" where
  "int_cast n = (int n + 2147483648) mod 4294967296 - 2147483648"

text \<open>
  The lambda \<^verbatim>\<open>pushVertex\<close> (lines 297--311), with the vectors it captures as arguments:
  \<open>ps\<close> is \<^verbatim>\<open>positions\<close>, \<open>ts\<close> is \<^verbatim>\<open>texcoords\<close>, \<open>out\<close> is \<^verbatim>\<open>outVertices\<close>, and the
  result is \<^verbatim>\<open>outVertices\<close> afterwards.
\<close>

definition pushVertex ::
  "Vec3 list \<Rightarrow> Vector2f list \<Rightarrow> real list \<Rightarrow> int \<times> int \<Rightarrow> real list"
where
  "pushVertex ps ts out ix =
     (case ix of (vi, ti) \<Rightarrow>
        if vi \<le> 0 \<or> vi > int_cast (length ps) then out
        else
          (let p = ps ! nat (vi - 1);
               t = (if ti > 0 \<and> ti \<le> int_cast (length ts) then ts ! nat (ti - 1)
                    else Vector2f 0 0)
           in out @ [vx p, vy p, vz p, v2x t, v2y t]))"

text \<open>
  The triangulation loop (lines 318--327),
  \<^verbatim>\<open>for (size_t i = 1; i + 1 < tokens.size(); ++i)\<close>, from the value \<open>i\<close> of its counter.
\<close>

function fan_loop ::
  "Vec3 list \<Rightarrow> Vector2f list \<Rightarrow> string list \<Rightarrow> int \<times> int \<Rightarrow> nat \<Rightarrow> real list
     \<Rightarrow> exn + real list"
where
  "fan_loop ps ts tokens v0 i out =
     (if i + 1 < length tokens then
        (case parseIndex (tokens ! i) of
           Inl e \<Rightarrow> Inl e
         | Inr v1 \<Rightarrow>
             (case parseIndex (tokens ! (i + 1)) of
                Inl e \<Rightarrow> Inl e
              | Inr v2 \<Rightarrow>
                  fan_loop ps ts tokens v0 (i + 1)
                    (pushVertex ps ts (pushVertex ps ts (pushVertex ps ts out v0) v1) v2)))
      else Inr out)"
  by pat_completeness auto
termination
  by (relation "measure (\<lambda>(ps, ts, tokens, v0, i, out). length tokens - i)") auto

declare fan_loop.simps [simp del]

text \<open>The state of the loader while it reads the file.\<close>

record loader =
  positions :: "Vec3 list"
  texcoords :: "Vector2f list"
  outVertices :: "real list"

text \<open>The branch for the prefix \<^verbatim>\<open>f\<close> once the tokens are read (lines 313--327).\<close>

definition face :: "loader \<Rightarrow> string list \<Rightarrow> exn + loader" where
  "face st tokens =
     (if length tokens < 3 then Inr st
      else
        (case parseIndex (tokens ! 0) of
           Inl e \<Rightarrow> Inl e
         | Inr v0 \<Rightarrow>
             (case fan_loop (positions st) (texcoords st) tokens v0 1 (outVertices st) of
                Inl e \<Rightarrow> Inl e
              | Inr out \<Rightarrow> Inr (st\<lparr>outVertices := out\<rparr>))))"

text \<open>
  One turn of the \<^verbatim>\<open>while (std::getline(file, line))\<close> loop. The extraction of floats,
  \<^verbatim>\<open>iss >> x >> y >> z\<close> and \<^verbatim>\<open>iss >> u >> v\<close>, belongs to the standard library and is
  a parameter: \<open>rd3\<close> and \<open>rd2\<close> give the values stored for the text that follows the
  prefix. Whatever that text is, one position or one texture coordinate is appended.
\<close>

definition process_line ::
  "(string \<Rightarrow> Vec3) \<Rightarrow> (string \<Rightarrow> Vector2f) \<Rightarrow> loader \<Rightarrow> string \<Rightarrow> exn + loader"
where
  "process_line rd3 rd2 st line =
     (if line = [] then Inr st
      else
        (let ws = read_words [] line;
             prefix = (if ws = [] then [] else hd ws)
         in if prefix = ''v'' then
              Inr (st\<lparr>positions := positions st @ [rd3 (after_prefix line)]\<rparr>)
            else if prefix = ''vt'' then
              Inr (st\<lparr>texcoords := texcoords st @ [rd2 (after_prefix line)]\<rparr>)
            else if prefix = ''f'' then face st (tl ws)
            else Inr st))"

fun process_lines ::
  "(string \<Rightarrow> Vec3) \<Rightarrow> (string \<Rightarrow> Vector2f) \<Rightarrow> loader \<Rightarrow> string list \<Rightarrow> exn + loader"
where
  "process_lines rd3 rd2 st [] = Inr st"
| "process_lines rd3 rd2 st (line # rest) =
     (case process_line rd3 rd2 st line of
        Inl e \<Rightarrow> Inl e
      | Inr st' \<Rightarrow> process_lines rd3 rd2 st' rest)"

text \<open>
  LoadOBJ. \<open>file\<close> is the text of the file, or \<open>None\<close> when it cannot be opened; \<open>out0\<close> is
  the vector the caller passes by reference (\<^verbatim>\<open>main\<close> passes an empty one). The result is
  the returned flag, the vector afterwards and the line printed.
\<close>

definition LoadOBJ ::
  "(string \<Rightarrow> Vec3) \<Rightarrow> (string \<Rightarrow> Vector2f) \<Rightarrow> string option \<Rightarrow> real list
     \<Rightarrow> exn + bool \<times> real list \<times> diag"
where
  "LoadOBJ rd3 rd2 file out0 =
     (case file of
        None \<Rightarrow> Inr (False, out0, Failed_to_open)
      | Some content \<Rightarrow>
          (case process_lines rd3 rd2
                  \<lparr>positions = [], texcoords = [], outVertices = out0\<rparr>
                  (getlines [] content) of
             Inl e \<Rightarrow> Inl e
           | Inr st \<Rightarrow>
               if outVertices st = [] then Inr (False, outVertices st, No_vertices)
               else Inr (True, outVertices st, Loaded (length (outVertices st) div 5))))"

text \<open>
  The vertex count of a stream, \<^verbatim>\<open>outVertices.size() / 5\<close>, as LoadOBJ prints it
  (line 338).
\<close>

definition vertexCount :: "real list \<Rightarrow> nat" where
  "vertexCount data = length data div 5"

subsection \<open>Planets and the frame loop of main (lines 463--629)\<close>

record Planet =
  orbitRadius :: real
  orbitSpeed :: real
  selfSpeed :: real
  scale :: real
  orbitAngle :: real
  selfAngle :: real

text \<open>
  \<^verbatim>\<open>frand\<close> (line 507) for the value \<open>r\<close> that \<^verbatim>\<open>rand()\<close> returns. The macro
  \<^verbatim>\<open>RAND_MAX\<close> comes from the C library and is a parameter.
\<close>

definition frand :: "nat \<Rightarrow> real \<Rightarrow> real \<Rightarrow> nat \<Rightarrow> real" where
  "frand rand_max a b r = a + (b - a) * (real r / real rand_max)"

text \<open>
  The planets built before the loop (lines 512--531). \<open>rnd k\<close> is the value of the
  \<open>k\<close>-th call of \<^verbatim>\<open>rand()\<close>, counted from 0; planet \<open>i\<close> makes calls \<open>5 * i\<close> to
  \<open>5 * i + 4\<close>.
\<close>

definition make_planet :: "nat \<Rightarrow> (nat \<Rightarrow> nat) \<Rightarrow> nat \<Rightarrow> Planet" where
  "make_planet rand_max rnd i =
     (let radius = real (i div 2) + 4
      in \<lparr>orbitRadius = radius,
          orbitSpeed = frand rand_max (1 / 2) (3 / 2) (rnd (5 * i)) / radius,
          selfSpeed = frand rand_max (3 / 10) (3 / 2) (rnd (5 * i + 1)),
          scale = frand rand_max (2 / 5) (3 / 2) (rnd (5 * i + 2)),
          orbitAngle = frand rand_max 0 360 (rnd (5 * i + 3)),
          selfAngle = frand rand_max 0 360 (rnd (5 * i + 4))\<rparr>)"

definition planetCount :: nat where
  "planetCount = 100"

definition init_planets :: "nat \<Rightarrow> (nat \<Rightarrow> nat) \<Rightarrow> Planet list" where
  "init_planets rand_max rnd =
     \<lparr>orbitRadius = 0, orbitSpeed = 0, selfSpeed = 1 / 5, scale = 4,
      orbitAngle = 0, selfAngle = 0\<rparr>
     # map (make_planet rand_max rnd) [0..<planetCount]"

text \<open>What one turn of the frame loop reads from outside: the clock and the held keys.\<close>

record FrameInput =
  dt :: real
  keyW :: bool
  keyS :: bool
  keyA :: bool
  keyD :: bool
  keySpace :: bool
  keyLShift :: bool
  keyLeft :: bool
  keyRight :: bool
  keyUp :: bool
  keyDown :: bool

text \<open>
  The variables of \<^verbatim>\<open>main\<close> that the loop reads or writes, and \<open>randCalls\<close>, the number
  of calls of \<^verbatim>\<open>rand()\<close> made so far, which is the position of the C library's generator.
\<close>

record Scene =
  camPos :: Vec3
  yaw :: real
  pitch :: real
  camFront :: Vec3
  planets :: "Planet list"
  randCalls :: nat

definition worldUp :: Vec3 where
  "worldUp = Vec3 0 1 0"

definition cameraSpeed :: real where
  "cameraSpeed = 7"

definition rotationSpeed :: real where
  "rotationSpeed = 50"

definition deg2rad :: "real \<Rightarrow> real" where
  "deg2rad d = d * pi / 180"

text \<open>The lambda \<^verbatim>\<open>calcCameraFront\<close> (lines 471--482), for the yaw and pitch it captures.\<close>

definition calcCameraFront :: "real \<Rightarrow> real \<Rightarrow> Vec3" where
  "calcCameraFront yw pt =
     (let cy = cos (deg2rad yw);
          sy = sin (deg2rad yw);
          cp = cos (deg2rad pt);
          sp = sin (deg2rad pt)
      in Normalize (Vec3 (cy * cp) sp (sy * cp)))"

text \<open>The movement keys (lines 563--574), one \<^verbatim>\<open>if\<close> after the other.\<close>

definition move_camera :: "FrameInput \<Rightarrow> Vec3 \<Rightarrow> Vec3 \<Rightarrow> Vec3 \<Rightarrow> Vec3" where
  "move_camera inp front right pos =
     (let d = cameraSpeed * dt inp;
          p1 = (if keyW inp then Vec3_add pos (Vec3_scale front d) else pos);
          p2 = (if keyS inp then Vec3_sub p1 (Vec3_scale front d) else p1);
          p3 = (if keyA inp then Vec3_sub p2 (Vec3_scale right d) else p2);
          p4 = (if keyD inp then Vec3_add p3 (Vec3_scale right d) else p3);
          p5 = (if keySpace inp then Vec3_add p4 (Vec3_scale worldUp d) else p4)
      in if keyLShift inp then Vec3_sub p5 (Vec3_scale worldUp d) else p5)"

text \<open>The arrow keys for the yaw (lines 577--580) and the pitch (lines 581--584).\<close>

definition turn_yaw :: "FrameInput \<Rightarrow> real \<Rightarrow> real" where
  "turn_yaw inp yw =
     (let y1 = (if keyLeft inp then yw - rotationSpeed * dt inp else yw)
      in if keyRight inp then y1 + rotationSpeed * dt inp else y1)"

definition turn_pitch :: "FrameInput \<Rightarrow> real \<Rightarrow> real" where
  "turn_pitch inp pt =
     (let p1 = (if keyUp inp then pt + rotationSpeed * dt inp * (1 / 2) else pt)
      in if keyDown inp then p1 - rotationSpeed * dt inp * (1 / 2) else p1)"

text \<open>The two clamping statements (lines 586--587).\<close>

definition clamp_pitch :: "real \<Rightarrow> real" where
  "clamp_pitch pt =
     (let p1 = (if pt > 89 then 89 else pt)
      in if p1 < - 89 then - 89 else p1)"

text \<open>The body of the planet update loop (lines 595--596).\<close>

definition update_planet :: "real \<Rightarrow> Planet \<Rightarrow> Planet" where
  "update_planet d p =
     (let p1 = p\<lparr>orbitAngle := orbitAngle p + orbitSpeed p * d\<rparr>
      in p1\<lparr>selfAngle := selfAngle p1 + selfSpeed p1 * d\<rparr>)"

text \<open>
  One turn of the frame loop up to the planet update (lines 546--597). Window events
  change only the viewport and the projection matrix and are left out.
\<close>

definition frame :: "FrameInput \<Rightarrow> Scene \<Rightarrow> Scene" where
  "frame inp s =
     (let front = calcCameraFront (yaw s) (pitch s);
          right = Normalize (Cross front worldUp);
          pos = move_camera inp front right (camPos s);
          yw = turn_yaw inp (yaw s);
          pt = clamp_pitch (turn_pitch inp (pitch s))
      in s\<lparr>camPos := pos, yaw := yw, pitch := pt,
            camFront := calcCameraFront yw pt,
            planets := map (update_planet (dt inp)) (planets s)\<rparr>)"


text \<open>The model matrix the render loop computes for a planet (lines 615--625).\<close>

definition model :: "Planet \<Rightarrow> Mat4" where
  "model p =
     (let x = (if orbitRadius p > 0 then cos (orbitAngle p) * orbitRadius p else 0);
          z = (if orbitRadius p > 0 then sin (orbitAngle p) * orbitRadius p else 0)
      in Mat4_mul (Mat4_mul (Translation x 0 z) (RotationY (selfAngle p)))
           (Scale (scale p) (scale p) (scale p)))"

text \<open>The scenes after each turn of the loop, for the inputs of successive turns.\<close>

fun run :: "Scene \<Rightarrow> FrameInput list \<Rightarrow> Scene list" where
  "run s [] = []"
| "run s (inp # inps) = frame inp s # run (frame inp s) inps"

text \<open>The scene when the loop is entered (lines 464--467, 484, 506--531).\<close>

definition init_scene :: "nat \<Rightarrow> (nat \<Rightarrow> nat) \<Rightarrow> Scene" where
  "init_scene rand_max rnd =
     \<lparr>camPos = Vec3 0 3 12, yaw = - 90, pitch = - 15,
      camFront = calcCameraFront (- 90) (- 15),
      planets = init_planets rand_max rnd,
      randCalls = 5 * planetCount\<rparr>"

text \<open>What is drawn of a planet: its two angles and its world transform.\<close>

definition observe :: "Scene \<Rightarrow> (real \<times> real \<times> Mat4) list" where
  "observe s = map (\<lambda>p. (orbitAngle p, selfAngle p, model p)) (planets s)"

subsection \<open>Vocabulary of the statements about the loader\<close>

text \<open>
  The three calls of \<^verbatim>\<open>pushVertex\<close> in one turn of the triangulation loop
  (lines 324--326), for the three parsed references of a triangle.
\<close>

definition emit_triangle ::
  "Vec3 list \<Rightarrow> Vector2f list \<Rightarrow> real list \<Rightarrow> (int \<times> int) \<times> (int \<times> int) \<times> (int \<times> int)
     \<Rightarrow> real list"
where
  "emit_triangle ps ts out tri =
     (case tri of (a, b, c) \<Rightarrow>
        pushVertex ps ts (pushVertex ps ts (pushVertex ps ts out a) b) c)"

text \<open>
  Fan triangulation as the specification words it, for the references \<open>v0, ..., v(n-1)\<close> of
  a face: the triangles \<open>(v0, v1, v2)\<close>, \<open>(v0, v2, v3)\<close>, ...,
  \<open>(v0, v(n-2), v(n-1))\<close>, in this order.
\<close>

definition spec_fan_triangles :: "'a list \<Rightarrow> ('a \<times> 'a \<times> 'a) list" where
  "spec_fan_triangles vs = map (\<lambda>i. (vs ! 0, vs ! i, vs ! (i + 1))) [1..<length vs - 1]"

text \<open>
  The condition under which no reference of a file is skipped: every token of every face
  record with at least three tokens parses, and its position index is at least 1 and at most
  the number \<open>n\<close> of positions declared before the face, which is below \<open>2^31\<close>. The lines
  are read as the loader reads them, \<open>n\<close> counting the \<^verbatim>\<open>v\<close> records so far.
\<close>

fun refs_in_range :: "nat \<Rightarrow> string list \<Rightarrow> bool" where
  "refs_in_range n [] = True"
| "refs_in_range n (line # rest) =
     (case read_words [] line of
        [] \<Rightarrow> refs_in_range n rest
      | prefix # tokens \<Rightarrow>
          if prefix = ''v'' then refs_in_range (n + 1) rest
          else if prefix = ''f'' \<and> 3 \<le> length tokens then
            n < 2147483648 \<and>
            list_all (\<lambda>t. case parseIndex t of
                             Inl e \<Rightarrow> False
                           | Inr ix \<Rightarrow> 0 < fst ix \<and> fst ix \<le> int n) tokens \<and>
            refs_in_range n rest
          else refs_in_range n rest)"

section \<open>Evaluation of the matrix constructors\<close>

lemma Identity_list: "Identity = [1, 0, 0, 0, 0, 1, 0, 0, 0, 0, 1, 0, 0, 0, 0, 1]"
  by (simp add: Identity_def Mat4_zero_def numeral_eq_Suc)

lemma Translation_list:
  "Translation x y z = [1, 0, 0, 0, 0, 1, 0, 0, 0, 0, 1, 0, x, y, z, 1]"
  by (simp add: Translation_def Identity_list numeral_eq_Suc)

lemma Scale_list: "Scale x y z = [x, 0, 0, 0, 0, y, 0, 0, 0, 0, z, 0, 0, 0, 0, 1]"
  by (simp add: Scale_def Mat4_zero_def numeral_eq_Suc)

lemma RotationY_list:
  "RotationY a = [cos a, 0, sin a, 0, 0, 1, 0, 0, - sin a, 0, cos a, 0, 0, 0, 0, 1]"
  by (simp add: RotationY_def Identity_list Let_def numeral_eq_Suc)


lemma Mat4_mul_list:
  "Mat4_mul [a0, a1, a2, a3, a4, a5, a6, a7, a8, a9, a10, a11, a12, a13, a14, a15]
            [b0, b1, b2, b3, b4, b5, b6, b7, b8, b9, b10, b11, b12, b13, b14, b15] =
     [a0 * b0 + a4 * b1 + a8 * b2 + a12 * b3,
      a1 * b0 + a5 * b1 + a9 * b2 + a13 * b3,
      a2 * b0 + a6 * b1 + a10 * b2 + a14 * b3,
      a3 * b0 + a7 * b1 + a11 * b2 + a15 * b3,
      a0 * b4 + a4 * b5 + a8 * b6 + a12 * b7,
      a1 * b4 + a5 * b5 + a9 * b6 + a13 * b7,
      a2 * b4 + a6 * b5 + a10 * b6 + a14 * b7,
      a3 * b4 + a7 * b5 + a11 * b6 + a15 * b7,
      a0 * b8 + a4 * b9 + a8 * b10 + a12 * b11,
      a1 * b8 + a5 * b9 + a9 * b10 + a13 * b11,
      a2 * b8 + a6 * b9 + a10 * b10 + a14 * b11,
      a3 * b8 + a7 * b9 + a11 * b10 + a15 * b11,
      a0 * b12 + a4 * b13 + a8 * b14 + a12 * b15,
      a1 * b12 + a5 * b13 + a9 * b14 + a13 * b15,
      a2 * b12 + a6 * b13 + a10 * b14 + a14 * b15,
      a3 * b12 + a7 * b13 + a11 * b14 + a15 * b15]"
  by (simp add: Mat4_mul_def Mat4_mul_col_def Mat4_mul_entry_def Mat4_zero_def numeral_eq_Suc)

lemma Mat4_apply_list:
  "Mat4_apply [a0, a1, a2, a3, a4, a5, a6, a7, a8, a9, a10, a11, a12, a13, a14, a15]
     (x, y, z, w) =
     (a0 * x + a4 * y + a8 * z + a12 * w,
      a1 * x + a5 * y + a9 * z + a13 * w,
      a2 * x + a6 * y + a10 * z + a14 * w,
      a3 * x + a7 * y + a11 * z + a15 * w)"
  by (simp add: Mat4_apply_def numeral_eq_Suc)

section \<open>Normalize\<close>

lemma Dot_scale: "Dot (Vec3_scale v s) (Vec3_scale v s) = s\<^sup>2 * Dot v v"
  by (simp add: Dot_def Vec3_scale_def power2_eq_square algebra_simps)

lemma no_overflow_at_one: "\<not> float_overflow 1"
  by (simp add: float_overflow_def)

lemma Length_unit:
  assumes "0 < sqrt (Dot v v)"
  shows "Length (Vec3_scale v (1 / sqrt (Dot v v))) = Finite 1"
proof -
  from assms have pos: "0 < Dot v v"
    by simp
  have "Dot (Vec3_scale v (1 / sqrt (Dot v v))) (Vec3_scale v (1 / sqrt (Dot v v)))
      = (1 / sqrt (Dot v v))\<^sup>2 * Dot v v"
    by (rule Dot_scale)
  also have "\<dots> = 1"
    using pos by (simp add: power_divide)
  finally show ?thesis
    by (simp add: Length_def no_overflow_at_one)
qed

lemma Length_zero: "Length (Vec3 0 0 0) = Finite 0"
  by (simp add: Length_def Dot_def float_overflow_def)

lemma Length_3_0_4: "Length (Vec3 3 0 4) = Finite 5"
proof -
  have "sqrt (5\<^sup>2) = (5::real)"
    by (rule real_sqrt_unique) simp_all
  then show ?thesis
    by (simp add: Length_def Dot_def float_overflow_def)
qed

lemma Length_huge: "Length (Vec3 1000000000000000000000000000000 0 0) = PlusInfinity"
  by (simp add: Length_def Dot_def float_overflow_def)

text \<open>
  C4, as the code has it. For a vector whose sum of squares is a finite \<^verbatim>\<open>float\<close>
  (below \<open>2^128 - 2^103\<close>, a length below about \<open>1.8e19\<close>): Normalize returns a vector of
  length at most \<open>1e-6\<close> exactly as it is, and any other vector scaled by the reciprocal of
  its length, a result of length 1 (exactly 1 with rounding left out). For a longer vector
  the length is \<open>+infinity\<close> and Normalize returns the zero vector.
\<close>

theorem Normalize_spec:
  "(\<not> float_overflow (Dot v v) \<and> sqrt (Dot v v) \<le> 1 / 1000000 \<longrightarrow>
      Length v = Finite (sqrt (Dot v v)) \<and> Normalize v = v) \<and>
   (\<not> float_overflow (Dot v v) \<and> \<not> sqrt (Dot v v) \<le> 1 / 1000000 \<longrightarrow>
      Length v = Finite (sqrt (Dot v v)) \<and>
      Normalize v = Vec3_scale v (1 / sqrt (Dot v v)) \<and>
      Length (Normalize v) = Finite 1) \<and>
   (float_overflow (Dot v v) \<longrightarrow>
      Length v = PlusInfinity \<and> Normalize v = Vec3 0 0 0 \<and>
      Length (Normalize v) = Finite 0)"
proof (intro conjI impI)
  assume "\<not> float_overflow (Dot v v) \<and> sqrt (Dot v v) \<le> 1 / 1000000"
  then show "Length v = Finite (sqrt (Dot v v))" "Normalize v = v"
    by (simp_all add: Normalize_def Length_def)
next
  assume large: "\<not> float_overflow (Dot v v) \<and> \<not> sqrt (Dot v v) \<le> 1 / 1000000"
  then show finite: "Length v = Finite (sqrt (Dot v v))"
    by (simp add: Length_def)
  from large show scaled: "Normalize v = Vec3_scale v (1 / sqrt (Dot v v))"
    by (simp add: Normalize_def finite)
  from large have "0 < sqrt (Dot v v)"
    by linarith
  then show "Length (Normalize v) = Finite 1"
    unfolding scaled by (rule Length_unit)
next
  assume over: "float_overflow (Dot v v)"
  then show infinite: "Length v = PlusInfinity"
    by (simp add: Length_def)
  show zero: "Normalize v = Vec3 0 0 0"
    by (simp add: Normalize_def infinite Vec3_scale_def)
  show "Length (Normalize v) = Finite 0"
    unfolding zero by (rule Length_zero)
qed

text \<open>
  The claim as it was stated fails for a long vector: \<open>(1e30, 0, 0)\<close> has a length above
  \<open>1e-6\<close>, the square of \<open>1e30\<close> is no finite \<^verbatim>\<open>float\<close>, and the result of Normalize
  is the zero vector, of length 0 and not 1.
\<close>

theorem Normalize_spec_counterexample:
  "Length (Vec3 1000000000000000000000000000000 0 0) = PlusInfinity \<and>
   Normalize (Vec3 1000000000000000000000000000000 0 0) = Vec3 0 0 0 \<and>
   Length (Normalize (Vec3 1000000000000000000000000000000 0 0)) = Finite 0 \<and>
   Length (Normalize (Vec3 1000000000000000000000000000000 0 0)) \<noteq> Finite 1"
  by (simp add: Normalize_def Length_huge Length_zero Vec3_scale_def)

theorem Normalize_spec_witness:
  "Normalize (Vec3 0 0 0) = Vec3 0 0 0 \<and>
   Length (Vec3 3 0 4) = Finite 5 \<and>
   Normalize (Vec3 3 0 4) = Vec3 (3 / 5) 0 (4 / 5) \<and>
   Length (Normalize (Vec3 3 0 4)) = Finite 1 \<and>
   float_overflow (Dot (Vec3 1000000000000000000000000000000 0 0)
                       (Vec3 1000000000000000000000000000000 0 0)) \<and>
   Normalize (Vec3 1000000000000000000000000000000 0 0) = Vec3 0 0 0"
proof -
  have root: "sqrt (Dot (Vec3 3 0 4) (Vec3 3 0 4)) = 5"
    using Length_3_0_4 by (simp add: Length_def float_overflow_def Dot_def)
  have small: "\<not> float_overflow (Dot (Vec3 0 0 0) (Vec3 0 0 0)) \<and>
      sqrt (Dot (Vec3 0 0 0) (Vec3 0 0 0)) \<le> 1 / 1000000"
    by (simp add: Dot_def float_overflow_def)
  have large: "\<not> float_overflow (Dot (Vec3 3 0 4) (Vec3 3 0 4)) \<and>
      \<not> sqrt (Dot (Vec3 3 0 4) (Vec3 3 0 4)) \<le> 1 / 1000000"
    unfolding root by (simp add: Dot_def float_overflow_def)
  have huge: "float_overflow (Dot (Vec3 1000000000000000000000000000000 0 0)
                       (Vec3 1000000000000000000000000000000 0 0))"
    by (simp add: Dot_def float_overflow_def)
  note a = Normalize_spec [of "Vec3 0 0 0", THEN conjunct1, THEN mp, OF small]
  note b = Normalize_spec [of "Vec3 3 0 4", THEN conjunct2, THEN conjunct1, THEN mp, OF large]
  note c = Normalize_spec [of "Vec3 1000000000000000000000000000000 0 0",
      THEN conjunct2, THEN conjunct2, THEN mp, OF huge]
  have "Normalize (Vec3 3 0 4) = Vec3 (3 / 5) 0 (4 / 5)"
    using b [THEN conjunct2, THEN conjunct1] unfolding root by (simp add: Vec3_scale_def)
  with a [THEN conjunct2] Length_3_0_4 b [THEN conjunct2, THEN conjunct2] huge
    c [THEN conjunct2, THEN conjunct1]
  show ?thesis
    by (intro conjI)
qed

section \<open>The view matrix\<close>


section \<open>The camera pitch\<close>

lemma clamp_pitch_range: "- 89 \<le> clamp_pitch pt \<and> clamp_pitch pt \<le> 89"
  by (simp add: clamp_pitch_def Let_def)

lemma pitch_frame: "pitch (frame inp s) = clamp_pitch (turn_pitch inp (pitch s))"
  by (simp add: frame_def Let_def)

lemma planets_frame: "planets (frame inp s) = map (update_planet (dt inp)) (planets s)"
  by (simp add: frame_def Let_def)

lemma pitch_run:
  "s' \<in> set (run s inps) \<Longrightarrow> - 89 \<le> pitch s' \<and> pitch s' \<le> 89"
proof (induction inps arbitrary: s)
  case Nil
  then show ?case by simp
next
  case (Cons inp inps)
  from Cons.prems have "s' = frame inp s \<or> s' \<in> set (run (frame inp s) inps)"
    by simp
  then show ?case
  proof
    assume "s' = frame inp s"
    then show ?thesis
      using clamp_pitch_range [of "turn_pitch inp (pitch s)"] by (simp add: pitch_frame)
  next
    assume "s' \<in> set (run (frame inp s) inps)"
    then show ?thesis by (rule Cons.IH)
  qed
qed

text \<open>
  C7. Started from a pitch within \<open>[-89, 89]\<close> degrees, the pitch is within
  \<open>[-89, 89]\<close> after every turn of the frame loop, whatever keys are held and
  whatever the elapsed times are: neither the Up key can push it above 89 nor the Down key
  below -89. The scenes quantified over are the start and the scene after each turn.
\<close>

theorem pitch_stays_clamped:
  assumes "- 89 \<le> pitch s" and "pitch s \<le> 89"
  shows "\<forall>s' \<in> set (s # run s inps). - 89 \<le> pitch s' \<and> pitch s' \<le> 89"
  using assms pitch_run [of _ s inps] by auto

theorem pitch_stays_clamped_witness:
  "- 89 \<le> pitch (init_scene 32767 (\<lambda>k. 0)) \<and> pitch (init_scene 32767 (\<lambda>k. 0)) \<le> 89 \<and>
   map pitch (run (init_scene 32767 (\<lambda>k. 0))
     [\<lparr>dt = 1, keyW = False, keyS = False, keyA = False, keyD = False, keySpace = False,
       keyLShift = False, keyLeft = False, keyRight = False, keyUp = True, keyDown = False\<rparr>,
      \<lparr>dt = 4, keyW = False, keyS = False, keyA = False, keyD = False, keySpace = False,
       keyLShift = False, keyLeft = False, keyRight = False, keyUp = True, keyDown = False\<rparr>,
      \<lparr>dt = 10, keyW = False, keyS = False, keyA = False, keyD = False, keySpace = False,
       keyLShift = False, keyLeft = False, keyRight = False, keyUp = False, keyDown = True\<rparr>])
     = [10, 89, - 89]"
proof -
  have start: "pitch (init_scene 32767 (\<lambda>k. 0)) = - 15"
    by (simp add: init_scene_def)
  have "- 89 \<le> pitch (init_scene 32767 (\<lambda>k. 0))" "pitch (init_scene 32767 (\<lambda>k. 0)) \<le> 89"
    by (simp_all add: start)
  note pitch_stays_clamped [OF this]
  then show ?thesis
    by (simp add: start pitch_frame turn_pitch_def clamp_pitch_def rotationSpeed_def Let_def)
qed

section \<open>The planet update and the model matrix\<close>

lemma model_list:
  "model p =
     (let x = (if orbitRadius p > 0 then cos (orbitAngle p) * orbitRadius p else 0);
          z = (if orbitRadius p > 0 then sin (orbitAngle p) * orbitRadius p else 0);
          c = cos (selfAngle p); sn = sin (selfAngle p); k = scale p
      in [c * k, 0, sn * k, 0,  0, k, 0, 0,  - (sn * k), 0, c * k, 0,  x, 0, z, 1])"
  by (simp add: model_def Let_def Translation_list RotationY_list Scale_list Mat4_mul_list)

text \<open>
  C1. The update sets \<open>orbitAngle\<close> to \<open>orbitAngle + orbitSpeed * dt\<close> and
  \<open>selfAngle\<close> to \<open>selfAngle + selfSpeed * dt\<close>, with no clamping and no wraparound,
  for every planet of the scene. The model matrix of a planet \<open>q\<close> is
  \<open>Translation pos * RotationY selfAngle * Scale (scale, scale, scale)\<close>, where \<open>pos\<close>
  is \<open>(cos orbitAngle * r, 0, sin orbitAngle * r)\<close> for an orbit radius \<open>r > 0\<close> and
  the origin for \<open>r = 0\<close>, whatever \<open>orbitAngle\<close> is; the matrix sends the origin of the
  mesh to \<open>pos\<close>.
\<close>

theorem advance_and_world_transform:
  "orbitAngle (update_planet d p) = orbitAngle p + orbitSpeed p * d \<and>
   selfAngle (update_planet d p) = selfAngle p + selfSpeed p * d \<and>
   planets (frame inp s) = map (update_planet (dt inp)) (planets s) \<and>
   (0 < orbitRadius q \<longrightarrow>
      model q =
        Mat4_mul
          (Mat4_mul
             (Translation (cos (orbitAngle q) * orbitRadius q) 0
                (sin (orbitAngle q) * orbitRadius q))
             (RotationY (selfAngle q)))
          (Scale (scale q) (scale q) (scale q)) \<and>
      Mat4_apply (model q) (0, 0, 0, 1) =
        (cos (orbitAngle q) * orbitRadius q, 0, sin (orbitAngle q) * orbitRadius q, 1)) \<and>
   (orbitRadius q = 0 \<longrightarrow>
      model q =
        Mat4_mul (Mat4_mul (Translation 0 0 0) (RotationY (selfAngle q)))
          (Scale (scale q) (scale q) (scale q)) \<and>
      Mat4_apply (model q) (0, 0, 0, 1) = (0, 0, 0, 1))"
proof -
  have angles:
    "orbitAngle (update_planet d p) = orbitAngle p + orbitSpeed p * d"
    "selfAngle (update_planet d p) = selfAngle p + selfSpeed p * d"
    by (simp_all add: update_planet_def Let_def)
  have product_moving: "model q =
        Mat4_mul
          (Mat4_mul
             (Translation (cos (orbitAngle q) * orbitRadius q) 0
                (sin (orbitAngle q) * orbitRadius q))
             (RotationY (selfAngle q)))
          (Scale (scale q) (scale q) (scale q))" if "0 < orbitRadius q"
    using that by (simp add: model_def)
  have place_moving: "Mat4_apply (model q) (0, 0, 0, 1) =
        (cos (orbitAngle q) * orbitRadius q, 0, sin (orbitAngle q) * orbitRadius q, 1)"
    if "0 < orbitRadius q"
    using that by (simp add: model_list Mat4_apply_list Let_def)
  have product_central: "model q =
        Mat4_mul (Mat4_mul (Translation 0 0 0) (RotationY (selfAngle q)))
          (Scale (scale q) (scale q) (scale q))" if "orbitRadius q = 0"
    using that by (simp add: model_def)
  have place_central: "Mat4_apply (model q) (0, 0, 0, 1) = (0, 0, 0, 1)"
    if "orbitRadius q = 0"
    using that by (simp add: model_list Mat4_apply_list Let_def)
  from angles planets_frame product_moving place_moving product_central place_central
  show ?thesis
    by blast
qed

theorem advance_and_world_transform_witness:
  "orbitAngle (update_planet 2 \<lparr>orbitRadius = 4, orbitSpeed = 1 / 2, selfSpeed = 3, scale = 2,
      orbitAngle = 1, selfAngle = 100\<rparr>) = 2 \<and>
   selfAngle (update_planet 2 \<lparr>orbitRadius = 4, orbitSpeed = 1 / 2, selfSpeed = 3, scale = 2,
      orbitAngle = 1, selfAngle = 100\<rparr>) = 106 \<and>
   (0::real) < orbitRadius \<lparr>orbitRadius = 4, orbitSpeed = 1 / 2, selfSpeed = 3, scale = 2,
      orbitAngle = 0, selfAngle = 0\<rparr> \<and>
   Mat4_apply (model \<lparr>orbitRadius = 4, orbitSpeed = 1 / 2, selfSpeed = 3, scale = 2,
      orbitAngle = 0, selfAngle = 0\<rparr>) (0, 0, 0, 1) = (4, 0, 0, 1) \<and>
   orbitRadius \<lparr>orbitRadius = 0, orbitSpeed = 0, selfSpeed = 1 / 5, scale = 4,
      orbitAngle = 7, selfAngle = 0\<rparr> = (0::real) \<and>
   Mat4_apply (model \<lparr>orbitRadius = 0, orbitSpeed = 0, selfSpeed = 1 / 5, scale = 4,
      orbitAngle = 7, selfAngle = 0\<rparr>) (0, 0, 0, 1) = (0, 0, 0, 1)"
  using
    advance_and_world_transform
      [of 2 "\<lparr>orbitRadius = 4, orbitSpeed = 1 / 2, selfSpeed = 3, scale = 2,
              orbitAngle = 1, selfAngle = 100\<rparr>" inp s
          "\<lparr>orbitRadius = 4, orbitSpeed = 1 / 2, selfSpeed = 3, scale = 2,
            orbitAngle = 0, selfAngle = 0\<rparr>"]
    advance_and_world_transform
      [of 2 "\<lparr>orbitRadius = 4, orbitSpeed = 1 / 2, selfSpeed = 3, scale = 2,
              orbitAngle = 1, selfAngle = 100\<rparr>" inp s
          "\<lparr>orbitRadius = 0, orbitSpeed = 0, selfSpeed = 1 / 5, scale = 4,
            orbitAngle = 7, selfAngle = 0\<rparr>"]
  by (simp add: Translation_list RotationY_list Scale_list Mat4_mul_list Mat4_apply_list)

section \<open>Determinism of the planet update\<close>

lemma observe_frame:
  "observe (frame inp s) =
     map (\<lambda>p. (orbitAngle p, selfAngle p, model p)) (map (update_planet (dt inp)) (planets s))"
  by (simp add: observe_def planets_frame)

text \<open>
  C9. The angles and world transforms drawn in successive frames are a function of the
  planets at the start and of the elapsed times alone: two runs that start with the same
  planets and see the same elapsed times draw the same values in every frame, whatever
  the camera, the held keys and the position of the random generator are in each.
\<close>

theorem advance_deterministic:
  "planets s1 = planets s2 \<Longrightarrow> map dt inps1 = map dt inps2 \<Longrightarrow>
   map observe (run s1 inps1) = map observe (run s2 inps2)"
proof (induction inps1 arbitrary: inps2 s1 s2)
  case Nil
  then show ?case by simp
next
  case (Cons inp1 rest1)
  from Cons.prems(2) obtain inp2 rest2
    where inps2: "inps2 = inp2 # rest2" and same_dt: "dt inp1 = dt inp2"
      and rest: "map dt rest1 = map dt rest2"
    by (cases inps2) auto
  have next_planets: "planets (frame inp1 s1) = planets (frame inp2 s2)"
    using Cons.prems(1) same_dt by (simp add: planets_frame)
  then have "observe (frame inp1 s1) = observe (frame inp2 s2)"
    by (simp add: observe_def)
  moreover have "map observe (run (frame inp1 s1) rest1) = map observe (run (frame inp2 s2) rest2)"
    using next_planets rest by (rule Cons.IH)
  ultimately show ?case
    by (simp add: inps2)
qed

theorem advance_deterministic_witness:
  "planets \<lparr>camPos = Vec3 0 3 12, yaw = - 90, pitch = - 15, camFront = Vec3 0 0 (- 1),
      planets = [\<lparr>orbitRadius = 4, orbitSpeed = 1 / 2, selfSpeed = 3, scale = 2,
                  orbitAngle = 1, selfAngle = 100\<rparr>], randCalls = 500\<rparr>
     = planets \<lparr>camPos = Vec3 1 1 1, yaw = 30, pitch = 40, camFront = Vec3 1 0 0,
      planets = [\<lparr>orbitRadius = 4, orbitSpeed = 1 / 2, selfSpeed = 3, scale = 2,
                  orbitAngle = 1, selfAngle = 100\<rparr>], randCalls = 7\<rparr> \<and>
   map dt [\<lparr>dt = 2, keyW = True, keyS = False, keyA = False, keyD = False, keySpace = False,
       keyLShift = False, keyLeft = False, keyRight = False, keyUp = True, keyDown = False\<rparr>]
     = map dt [\<lparr>dt = 2, keyW = False, keyS = True, keyA = False, keyD = False,
       keySpace = False, keyLShift = False, keyLeft = True, keyRight = False, keyUp = False,
       keyDown = False\<rparr>] \<and>
   map observe (run \<lparr>camPos = Vec3 0 3 12, yaw = - 90, pitch = - 15, camFront = Vec3 0 0 (- 1),
      planets = [\<lparr>orbitRadius = 4, orbitSpeed = 1 / 2, selfSpeed = 3, scale = 2,
                  orbitAngle = 1, selfAngle = 100\<rparr>], randCalls = 500\<rparr>
     [\<lparr>dt = 2, keyW = True, keyS = False, keyA = False, keyD = False, keySpace = False,
       keyLShift = False, keyLeft = False, keyRight = False, keyUp = True, keyDown = False\<rparr>])
     = map observe (run \<lparr>camPos = Vec3 1 1 1, yaw = 30, pitch = 40, camFront = Vec3 1 0 0,
      planets = [\<lparr>orbitRadius = 4, orbitSpeed = 1 / 2, selfSpeed = 3, scale = 2,
                  orbitAngle = 1, selfAngle = 100\<rparr>], randCalls = 7\<rparr>
     [\<lparr>dt = 2, keyW = False, keyS = True, keyA = False, keyD = False, keySpace = False,
       keyLShift = False, keyLeft = True, keyRight = False, keyUp = False, keyDown = False\<rparr>])"
proof -
  have same_planets:
    "planets \<lparr>camPos = Vec3 0 3 12, yaw = - 90, pitch = - 15, camFront = Vec3 0 0 (- 1),
      planets = [\<lparr>orbitRadius = 4, orbitSpeed = 1 / 2, selfSpeed = 3, scale = 2,
                  orbitAngle = 1, selfAngle = 100\<rparr>], randCalls = 500\<rparr>
     = planets \<lparr>camPos = Vec3 1 1 1, yaw = 30, pitch = 40, camFront = Vec3 1 0 0,
      planets = [\<lparr>orbitRadius = 4, orbitSpeed = 1 / 2, selfSpeed = 3, scale = 2,
                  orbitAngle = 1, selfAngle = 100\<rparr>], randCalls = 7\<rparr>"
    by simp
  have same_times:
    "map dt [\<lparr>dt = 2, keyW = True, keyS = False, keyA = False, keyD = False, keySpace = False,
       keyLShift = False, keyLeft = False, keyRight = False, keyUp = True, keyDown = False\<rparr>]
     = map dt [\<lparr>dt = 2, keyW = False, keyS = True, keyA = False, keyD = False,
       keySpace = False, keyLShift = False, keyLeft = True, keyRight = False, keyUp = False,
       keyDown = False\<rparr>]"
    by simp
  from same_planets same_times advance_deterministic [OF same_planets same_times]
  show ?thesis
    by (intro conjI)
qed

section \<open>What the planet update leaves alone\<close>

lemma update_planet_fields:
  "update_planet d p =
     p\<lparr>orbitAngle := orbitAngle p + orbitSpeed p * d, selfAngle := selfAngle p + selfSpeed p * d\<rparr>"
  by (simp add: update_planet_def Let_def)

lemma frame_keeps_bodies:
  "list_all2 (\<lambda>p q. orbitRadius q = orbitRadius p \<and> orbitSpeed q = orbitSpeed p \<and>
                     selfSpeed q = selfSpeed p \<and> scale q = scale p)
     ps (map (update_planet d) ps)"
  by (induction ps) (simp_all add: update_planet_fields)

lemma run_keeps_bodies:
  "s' \<in> set (run s inps) \<Longrightarrow>
   list_all2 (\<lambda>p q. orbitRadius q = orbitRadius p \<and> orbitSpeed q = orbitSpeed p \<and>
                     selfSpeed q = selfSpeed p \<and> scale q = scale p)
     (planets s) (planets s')"
proof (induction inps arbitrary: s)
  case Nil
  then show ?case by simp
next
  case (Cons inp inps)
  have step: "list_all2 (\<lambda>p q. orbitRadius q = orbitRadius p \<and> orbitSpeed q = orbitSpeed p \<and>
                     selfSpeed q = selfSpeed p \<and> scale q = scale p)
     (planets s) (planets (frame inp s))"
    by (simp add: planets_frame frame_keeps_bodies)
  from Cons.prems have "s' = frame inp s \<or> s' \<in> set (run (frame inp s) inps)"
    by simp
  then show ?case
  proof
    assume "s' = frame inp s"
    with step show ?thesis by simp
  next
    assume "s' \<in> set (run (frame inp s) inps)"
    then have "list_all2 (\<lambda>p q. orbitRadius q = orbitRadius p \<and> orbitSpeed q = orbitSpeed p \<and>
                     selfSpeed q = selfSpeed p \<and> scale q = scale p)
       (planets (frame inp s)) (planets s')"
      by (rule Cons.IH)
    with step show ?thesis
      by (rule list_all2_trans [rotated 1]) simp
  qed
qed

lemma length_init_planets: "length (init_planets m rnd) = 101"
  by (simp add: init_planets_def planetCount_def)

text \<open>
  C10. The update of a planet writes \<open>orbitAngle\<close> and \<open>selfAngle\<close> and nothing else.
  In every scene of a run the planets are as many as at the start and stand in the same
  order, each with the \<open>orbitRadius\<close>, \<open>orbitSpeed\<close>, \<open>selfSpeed\<close> and \<open>scale\<close> it
  started with; a run from the scene that \<^verbatim>\<open>main\<close> builds keeps its 101 planets.
\<close>

theorem advance_frame_effect:
  "update_planet d p =
     p\<lparr>orbitAngle := orbitAngle p + orbitSpeed p * d, selfAngle := selfAngle p + selfSpeed p * d\<rparr> \<and>
   (\<forall>s' \<in> set (run s inps).
      list_all2 (\<lambda>p q. orbitRadius q = orbitRadius p \<and> orbitSpeed q = orbitSpeed p \<and>
                        selfSpeed q = selfSpeed p \<and> scale q = scale p)
        (planets s) (planets s')) \<and>
   (\<forall>s' \<in> set (run (init_scene m rnd) inps). length (planets s') = 101)"
proof -
  have "length (planets s') = 101" if "s' \<in> set (run (init_scene m rnd) inps)" for s'
    using run_keeps_bodies [OF that] 
    by (simp add: list_all2_lengthD [symmetric] init_scene_def length_init_planets)
  with update_planet_fields run_keeps_bodies show ?thesis
    by blast
qed

theorem advance_frame_effect_witness:
  "list_all2 (\<lambda>p q. orbitRadius q = orbitRadius p \<and> orbitSpeed q = orbitSpeed p \<and>
                     selfSpeed q = selfSpeed p \<and> scale q = scale p)
     (planets (init_scene 32767 (\<lambda>k. k)))
     (planets (frame \<lparr>dt = 2, keyW = True, keyS = False, keyA = False, keyD = False,
        keySpace = False, keyLShift = False, keyLeft = False, keyRight = False, keyUp = True,
        keyDown = False\<rparr> (init_scene 32767 (\<lambda>k. k)))) \<and>
   length (planets (frame \<lparr>dt = 2, keyW = True, keyS = False, keyA = False, keyD = False,
        keySpace = False, keyLShift = False, keyLeft = False, keyRight = False, keyUp = True,
        keyDown = False\<rparr> (init_scene 32767 (\<lambda>k. k)))) = 101"
proof -
  have member:
    "frame \<lparr>dt = 2, keyW = True, keyS = False, keyA = False, keyD = False,
        keySpace = False, keyLShift = False, keyLeft = False, keyRight = False, keyUp = True,
        keyDown = False\<rparr> (init_scene 32767 (\<lambda>k. k))
     \<in> set (run (init_scene 32767 (\<lambda>k. k))
         [\<lparr>dt = 2, keyW = True, keyS = False, keyA = False, keyD = False,
           keySpace = False, keyLShift = False, keyLeft = False, keyRight = False,
           keyUp = True, keyDown = False\<rparr>])"
    by simp
  note effect = advance_frame_effect [of d p "init_scene 32767 (\<lambda>k. k)"
      "[\<lparr>dt = 2, keyW = True, keyS = False, keyA = False, keyD = False,
         keySpace = False, keyLShift = False, keyLeft = False, keyRight = False,
         keyUp = True, keyDown = False\<rparr>]" 32767 "\<lambda>k. k"]
  from effect [THEN conjunct2, THEN conjunct1, THEN bspec, OF member]
    effect [THEN conjunct2, THEN conjunct2, THEN bspec, OF member]
  show ?thesis
    by (intro conjI)
qed

section \<open>The pieces of the loader\<close>

lemma int_cast_small: "n < 2147483648 \<Longrightarrow> int_cast n = int n"
  by (simp add: int_cast_def)

lemma int_cast_le: "int_cast n \<le> int n"
proof -
  have "(int n + 2147483648) mod 4294967296 \<le> int n + 2147483648"
    by (rule zmod_le_nonneg_dividend) simp
  then show ?thesis
    by (simp add: int_cast_def)
qed

lemma pushVertex_skip:
  "vi \<le> 0 \<or> int (length ps) < vi \<Longrightarrow> pushVertex ps ts out (vi, ti) = out"
  using int_cast_le [of "length ps"] by (auto simp add: pushVertex_def)

lemma pushVertex_default_uv:
  "0 < vi \<Longrightarrow> vi \<le> int (length ps) \<Longrightarrow> length ps < 2147483648 \<Longrightarrow>
   ti \<le> 0 \<or> int (length ts) < ti \<Longrightarrow>
   pushVertex ps ts out (vi, ti) =
     out @ [vx (ps ! nat (vi - 1)), vy (ps ! nat (vi - 1)), vz (ps ! nat (vi - 1)), 0, 0]"
  using int_cast_le [of "length ts"]
  by (auto simp add: pushVertex_def int_cast_small Let_def)

lemma pushVertex_textured:
  "0 < vi \<Longrightarrow> vi \<le> int (length ps) \<Longrightarrow> length ps < 2147483648 \<Longrightarrow>
   0 < ti \<Longrightarrow> ti \<le> int (length ts) \<Longrightarrow> length ts < 2147483648 \<Longrightarrow>
   pushVertex ps ts out (vi, ti) =
     out @ [vx (ps ! nat (vi - 1)), vy (ps ! nat (vi - 1)), vz (ps ! nat (vi - 1)),
            v2x (ts ! nat (ti - 1)), v2y (ts ! nat (ti - 1))]"
  by (simp add: pushVertex_def int_cast_small Let_def)

lemma parseIndex_no_texture:
  assumes "parseIndex tok = Inr (vi, ti)"
    and "takeWhile (\<lambda>c. c \<noteq> CHR ''/'') (drop 1 (dropWhile (\<lambda>c. c \<noteq> CHR ''/'') tok)) = []"
  shows "ti = 0"
proof (cases "dropWhile (\<lambda>c. c \<noteq> CHR ''/'') tok")
  case Nil
  with assms(1) show ?thesis
    by (auto simp add: parseIndex_def split: sum.splits)
next
  case (Cons c after)
  with assms(2) have "takeWhile (\<lambda>c. c \<noteq> CHR ''/'') after = []"
    by simp
  with Cons assms(1) show ?thesis
    by (auto simp add: parseIndex_def Let_def split: sum.splits if_splits)
qed

lemma fan_loop_spec:
  "map parseIndex tokens = map Inr vs \<Longrightarrow>
   fan_loop ps ts tokens v0 i out =
     Inr (foldl (emit_triangle ps ts) out
            (map (\<lambda>j. (v0, vs ! j, vs ! (j + 1))) [i..<length vs - 1]))"
proof (induction ps ts tokens v0 i out rule: fan_loop.induct)
  case (1 ps ts tokens v0 i out)
  have len: "length tokens = length vs"
    using "1.prems" by (rule map_eq_imp_length_eq)
  have at: "parseIndex (tokens ! j) = Inr (vs ! j)" if "j < length vs" for j
  proof -
    have "map parseIndex tokens ! j = map Inr vs ! j"
      by (simp add: "1.prems")
    with that len show ?thesis
      by simp
  qed
  show ?case
  proof (cases "i + 1 < length tokens")
    case True
    then have range: "[i..<length vs - 1] = i # [i + 1..<length vs - 1]"
      using len by (simp add: upt_conv_Cons)
    have first: "parseIndex (tokens ! i) = Inr (vs ! i)"
      and second: "parseIndex (tokens ! (i + 1)) = Inr (vs ! (i + 1))"
      using True len by (simp_all add: at)
    have "fan_loop ps ts tokens v0 i out =
        fan_loop ps ts tokens v0 (i + 1)
          (pushVertex ps ts (pushVertex ps ts (pushVertex ps ts out v0) (vs ! i))
             (vs ! (i + 1)))"
      using True first second by (subst fan_loop.simps) simp
    also have "\<dots> =
        Inr (foldl (emit_triangle ps ts)
               (pushVertex ps ts (pushVertex ps ts (pushVertex ps ts out v0) (vs ! i))
                  (vs ! (i + 1)))
               (map (\<lambda>j. (v0, vs ! j, vs ! (j + 1))) [i + 1..<length vs - 1]))"
      using True first second "1.prems" by (rule "1.IH")
    finally have unfolded: "fan_loop ps ts tokens v0 i out =
        Inr (foldl (emit_triangle ps ts)
               (emit_triangle ps ts out (v0, vs ! i, vs ! (i + 1)))
               (map (\<lambda>j. (v0, vs ! j, vs ! (j + 1))) [i + 1..<length vs - 1]))"
      by (simp add: emit_triangle_def)
    show ?thesis
      unfolding range unfolded by simp
  next
    case False
    then have empty: "[i..<length vs - 1] = []"
      using len by simp
    have "fan_loop ps ts tokens v0 i out = Inr out"
      using False by (subst fan_loop.simps) simp
    then show ?thesis
      unfolding empty by simp
  qed
qed

lemma face_spec:
  assumes "map parseIndex tokens = map Inr vs" and "3 \<le> length tokens"
  shows "face st tokens =
     Inr (st\<lparr>outVertices :=
            foldl (emit_triangle (positions st) (texcoords st)) (outVertices st)
              (spec_fan_triangles vs)\<rparr>)"
proof -
  have len: "length tokens = length vs"
    using assms(1) by (rule map_eq_imp_length_eq)
  have nonempty: "0 < length tokens" "0 < length vs"
    using assms(2) len by auto
  have "map parseIndex tokens ! 0 = map Inr vs ! 0"
    by (simp add: assms(1))
  then have first: "parseIndex (tokens ! 0) = Inr (vs ! 0)"
    by (simp only: nth_map [OF nonempty(1)] nth_map [OF nonempty(2)])
  show ?thesis
    using assms(2) first
    by (simp add: face_def fan_loop_spec [OF assms(1)] spec_fan_triangles_def)
qed

lemma face_short: "length tokens < 3 \<Longrightarrow> face st tokens = Inr st"
  by (simp add: face_def)

lemma process_line_face:
  "read_words [] line = ''f'' # tokens \<Longrightarrow> process_line rd3 rd2 st line = face st tokens"
  by (auto simp add: process_line_def Let_def)

lemma getlines_line:
  "CHR 0x0A \<notin> set l \<Longrightarrow> getlines cur (l @ CHR 0x0A # rest) = (cur @ l) # getlines [] rest"
  by (induction l arbitrary: cur) auto

lemma getlines_last:
  "CHR 0x0A \<notin> set l \<Longrightarrow> getlines cur l = (if cur @ l = [] then [] else [cur @ l])"
  by (induction l arbitrary: cur) auto

lemma process_line_v:
  "read_words [] line \<noteq> [] \<Longrightarrow> hd (read_words [] line) = ''v'' \<Longrightarrow>
   process_line rd3 rd2 st line = Inr (st\<lparr>positions := positions st @ [rd3 (after_prefix line)]\<rparr>)"
  by (auto simp add: process_line_def Let_def)

lemma spec_fan_triangles_length: "length (spec_fan_triangles vs) = length vs - 2"
  by (simp add: spec_fan_triangles_def)

lemma spec_fan_triangles_nth:
  "i < length vs - 2 \<Longrightarrow> spec_fan_triangles vs ! i = (vs ! 0, vs ! (i + 1), vs ! (i + 2))"
proof -
  assume "i < length vs - 2"
  then have "i < length [1..<length vs - 1]" and "[1..<length vs - 1] ! i = i + 1"
    by (simp_all add: nth_upt)
  then show ?thesis
    by (simp add: spec_fan_triangles_def)
qed

lemma spec_fan_triangles_quad:
  "spec_fan_triangles [a, b, c, d] = [(a, b, c), (a, c, d)]"
  by (simp add: spec_fan_triangles_def upt_rec numeral_eq_Suc)

lemma words_quad: "read_words [] ''f 1 2 3 4'' = [''f'', ''1'', ''2'', ''3'', ''4'']"
  by (simp add: isspace_def)

lemma parse_quad:
  "map parseIndex [''1'', ''2'', ''3'', ''4''] = map Inr [(1, 0), (2, 0), (3, 0), (4, 0)]"
  by (simp add: parseIndex_def stoi_def isdigit_def isspace_def digits_value_def)

lemma quad_line:
  assumes "positions st = [p1, p2, p3, p4]"
  shows "process_line rd3 rd2 st ''f 1 2 3 4'' =
     Inr (st\<lparr>outVertices := outVertices st @
            [vx p1, vy p1, vz p1, 0, 0, vx p2, vy p2, vz p2, 0, 0, vx p3, vy p3, vz p3, 0, 0,
             vx p1, vy p1, vz p1, 0, 0, vx p3, vy p3, vz p3, 0, 0, vx p4, vy p4, vz p4, 0, 0]\<rparr>)"
proof -
  have "process_line rd3 rd2 st ''f 1 2 3 4'' = face st [''1'', ''2'', ''3'', ''4'']"
    using words_quad by (rule process_line_face)
  also have "\<dots> = Inr (st\<lparr>outVertices :=
            foldl (emit_triangle (positions st) (texcoords st)) (outVertices st)
              (spec_fan_triangles [(1, 0), (2, 0), (3, 0), (4, 0)])\<rparr>)"
    using parse_quad by (rule face_spec) simp
  finally show ?thesis
    by (simp add: assms spec_fan_triangles_quad emit_triangle_def pushVertex_def int_cast_def
        Let_def)
qed

lemma quad_file:
  assumes "CHR 0x0A \<notin> set l1" "read_words [] l1 \<noteq> []" "hd (read_words [] l1) = ''v''"
    and "CHR 0x0A \<notin> set l2" "read_words [] l2 \<noteq> []" "hd (read_words [] l2) = ''v''"
    and "CHR 0x0A \<notin> set l3" "read_words [] l3 \<noteq> []" "hd (read_words [] l3) = ''v''"
    and "CHR 0x0A \<notin> set l4" "read_words [] l4 \<noteq> []" "hd (read_words [] l4) = ''v''"
  shows "LoadOBJ rd3 rd2
      (Some (l1 @ CHR 0x0A # l2 @ CHR 0x0A # l3 @ CHR 0x0A # l4 @ CHR 0x0A # ''f 1 2 3 4''))
      [] =
    Inr (True,
         [vx (rd3 (after_prefix l1)), vy (rd3 (after_prefix l1)), vz (rd3 (after_prefix l1)), 0, 0,
          vx (rd3 (after_prefix l2)), vy (rd3 (after_prefix l2)), vz (rd3 (after_prefix l2)), 0, 0,
          vx (rd3 (after_prefix l3)), vy (rd3 (after_prefix l3)), vz (rd3 (after_prefix l3)), 0, 0,
          vx (rd3 (after_prefix l1)), vy (rd3 (after_prefix l1)), vz (rd3 (after_prefix l1)), 0, 0,
          vx (rd3 (after_prefix l3)), vy (rd3 (after_prefix l3)), vz (rd3 (after_prefix l3)), 0, 0,
          vx (rd3 (after_prefix l4)), vy (rd3 (after_prefix l4)), vz (rd3 (after_prefix l4)), 0, 0],
         Loaded 6)"
proof -
  have lines: "getlines []
      (l1 @ CHR 0x0A # l2 @ CHR 0x0A # l3 @ CHR 0x0A # l4 @ CHR 0x0A # ''f 1 2 3 4'')
      = [l1, l2, l3, l4, ''f 1 2 3 4'']"
    using assms(1,4,7,10) by (simp add: getlines_line)
  have "process_lines rd3 rd2 \<lparr>positions = [], texcoords = [], outVertices = []\<rparr>
      [l1, l2, l3, l4, ''f 1 2 3 4''] =
    Inr \<lparr>positions = [rd3 (after_prefix l1), rd3 (after_prefix l2), rd3 (after_prefix l3),
                      rd3 (after_prefix l4)],
         texcoords = [],
         outVertices =
         [vx (rd3 (after_prefix l1)), vy (rd3 (after_prefix l1)), vz (rd3 (after_prefix l1)), 0, 0,
          vx (rd3 (after_prefix l2)), vy (rd3 (after_prefix l2)), vz (rd3 (after_prefix l2)), 0, 0,
          vx (rd3 (after_prefix l3)), vy (rd3 (after_prefix l3)), vz (rd3 (after_prefix l3)), 0, 0,
          vx (rd3 (after_prefix l1)), vy (rd3 (after_prefix l1)), vz (rd3 (after_prefix l1)), 0, 0,
          vx (rd3 (after_prefix l3)), vy (rd3 (after_prefix l3)), vz (rd3 (after_prefix l3)), 0, 0,
          vx (rd3 (after_prefix l4)), vy (rd3 (after_prefix l4)), vz (rd3 (after_prefix l4)), 0, 0]\<rparr>"
    using assms(2,3,5,6,8,9,11,12)
    by (simp add: process_line_v quad_line)
  then show ?thesis
    by (simp add: LoadOBJ_def lines)
qed

section \<open>Fan triangulation\<close>

text \<open>
  C2. A face record with \<open>n \<ge> 3\<close> tokens, whose parsed references are
  \<open>v0, ..., v(n-1)\<close>, is triangulated as a fan around its first reference: the loader
  pushes the vertices of \<open>(v0, v1, v2)\<close>, \<open>(v0, v2, v3)\<close>, ..., \<open>(v0, v(n-2), v(n-1))\<close>
  in this order, \<open>n - 2\<close> triangles in all. A face record with fewer than three tokens
  changes nothing. A file of four \<^verbatim>\<open>v\<close> records followed by \<^verbatim>\<open>f 1 2 3 4\<close> loads
  with exactly six vertices, two triangles, the second made of the first, third and fourth
  declared positions, each with texture coordinates \<open>(0, 0)\<close>.
\<close>

theorem fan_triangulation:
  "length (spec_fan_triangles vs) = length vs - 2 \<and>
   (i < length vs - 2 \<longrightarrow>
      spec_fan_triangles vs ! i = (vs ! 0, vs ! (i + 1), vs ! (i + 2))) \<and>
   (read_words [] line = ''f'' # tokens \<and> 3 \<le> length tokens \<and>
    map parseIndex tokens = map Inr vs \<longrightarrow>
      process_line rd3 rd2 st line =
        Inr (st\<lparr>outVertices :=
               foldl (emit_triangle (positions st) (texcoords st)) (outVertices st)
                 (spec_fan_triangles vs)\<rparr>)) \<and>
   (read_words [] line = ''f'' # tokens \<and> length tokens < 3 \<longrightarrow>
      process_line rd3 rd2 st line = Inr st) \<and>
   ((\<forall>l \<in> set [l1, l2, l3, l4].
       CHR 0x0A \<notin> set l \<and> read_words [] l \<noteq> [] \<and> hd (read_words [] l) = ''v'') \<longrightarrow>
      LoadOBJ rd3 rd2
        (Some (l1 @ CHR 0x0A # l2 @ CHR 0x0A # l3 @ CHR 0x0A # l4 @ CHR 0x0A # ''f 1 2 3 4''))
        [] =
      Inr (True,
           [vx (rd3 (after_prefix l1)), vy (rd3 (after_prefix l1)), vz (rd3 (after_prefix l1)), 0, 0,
            vx (rd3 (after_prefix l2)), vy (rd3 (after_prefix l2)), vz (rd3 (after_prefix l2)), 0, 0,
            vx (rd3 (after_prefix l3)), vy (rd3 (after_prefix l3)), vz (rd3 (after_prefix l3)), 0, 0,
            vx (rd3 (after_prefix l1)), vy (rd3 (after_prefix l1)), vz (rd3 (after_prefix l1)), 0, 0,
            vx (rd3 (after_prefix l3)), vy (rd3 (after_prefix l3)), vz (rd3 (after_prefix l3)), 0, 0,
            vx (rd3 (after_prefix l4)), vy (rd3 (after_prefix l4)), vz (rd3 (after_prefix l4)), 0, 0],
           Loaded 6))"
proof (intro conjI impI)
  show "length (spec_fan_triangles vs) = length vs - 2"
    by (rule spec_fan_triangles_length)
next
  assume "i < length vs - 2"
  then show "spec_fan_triangles vs ! i = (vs ! 0, vs ! (i + 1), vs ! (i + 2))"
    by (rule spec_fan_triangles_nth)
next
  assume "read_words [] line = ''f'' # tokens \<and> 3 \<le> length tokens \<and>
    map parseIndex tokens = map Inr vs"
  then show "process_line rd3 rd2 st line =
        Inr (st\<lparr>outVertices :=
               foldl (emit_triangle (positions st) (texcoords st)) (outVertices st)
                 (spec_fan_triangles vs)\<rparr>)"
    by (simp add: process_line_face face_spec)
next
  assume "read_words [] line = ''f'' # tokens \<and> length tokens < 3"
  then show "process_line rd3 rd2 st line = Inr st"
    by (simp add: process_line_face face_short)
next
  assume "\<forall>l \<in> set [l1, l2, l3, l4].
       CHR 0x0A \<notin> set l \<and> read_words [] l \<noteq> [] \<and> hd (read_words [] l) = ''v''"
  then show "LoadOBJ rd3 rd2
        (Some (l1 @ CHR 0x0A # l2 @ CHR 0x0A # l3 @ CHR 0x0A # l4 @ CHR 0x0A # ''f 1 2 3 4''))
        [] =
      Inr (True,
           [vx (rd3 (after_prefix l1)), vy (rd3 (after_prefix l1)), vz (rd3 (after_prefix l1)), 0, 0,
            vx (rd3 (after_prefix l2)), vy (rd3 (after_prefix l2)), vz (rd3 (after_prefix l2)), 0, 0,
            vx (rd3 (after_prefix l3)), vy (rd3 (after_prefix l3)), vz (rd3 (after_prefix l3)), 0, 0,
            vx (rd3 (after_prefix l1)), vy (rd3 (after_prefix l1)), vz (rd3 (after_prefix l1)), 0, 0,
            vx (rd3 (after_prefix l3)), vy (rd3 (after_prefix l3)), vz (rd3 (after_prefix l3)), 0, 0,
            vx (rd3 (after_prefix l4)), vy (rd3 (after_prefix l4)), vz (rd3 (after_prefix l4)), 0, 0],
           Loaded 6)"
    by (intro quad_file) simp_all
qed

lemma words_pentagon:
  "read_words [] ''f 5 1/1 2//7 3/9/9 4'' = [''f'', ''5'', ''1/1'', ''2//7'', ''3/9/9'', ''4'']"
  by (simp add: isspace_def)

lemma parse_pentagon:
  "map parseIndex [''5'', ''1/1'', ''2//7'', ''3/9/9'', ''4''] =
     map Inr [(5, 0), (1, 1), (2, 0), (3, 9), (4, 0)]"
  by (simp add: parseIndex_def stoi_def isdigit_def isspace_def digits_value_def)

lemma words_two: "read_words [] ''f 1 2'' = [''f'', ''1'', ''2'']"
  by (simp add: isspace_def)

theorem fan_triangulation_witness:
  "\<forall>rd3 rd2 st.
     spec_fan_triangles [(5, 0), (1, 1), (2, 0), (3, 9), (4::int, 0::int)] ! 2
       = ((5, 0), (3, 9), (4, 0)) \<and>
     process_line rd3 rd2 st ''f 5 1/1 2//7 3/9/9 4'' =
       Inr (st\<lparr>outVertices :=
              foldl (emit_triangle (positions st) (texcoords st)) (outVertices st)
                [((5, 0), (1, 1), (2, 0)), ((5, 0), (2, 0), (3, 9)), ((5, 0), (3, 9), (4, 0))]\<rparr>) \<and>
     process_line rd3 rd2 st ''f 1 2'' = Inr st \<and>
     LoadOBJ rd3 rd2 (Some ''v 0 0 0\<newline>v 1 0 0\<newline>v 1 1 0\<newline>v 0 1 0\<newline>f 1 2 3 4'') [] =
       Inr (True,
            [vx (rd3 '' 0 0 0''), vy (rd3 '' 0 0 0''), vz (rd3 '' 0 0 0''), 0, 0,
             vx (rd3 '' 1 0 0''), vy (rd3 '' 1 0 0''), vz (rd3 '' 1 0 0''), 0, 0,
             vx (rd3 '' 1 1 0''), vy (rd3 '' 1 1 0''), vz (rd3 '' 1 1 0''), 0, 0,
             vx (rd3 '' 0 0 0''), vy (rd3 '' 0 0 0''), vz (rd3 '' 0 0 0''), 0, 0,
             vx (rd3 '' 1 1 0''), vy (rd3 '' 1 1 0''), vz (rd3 '' 1 1 0''), 0, 0,
             vx (rd3 '' 0 1 0''), vy (rd3 '' 0 1 0''), vz (rd3 '' 0 1 0''), 0, 0],
            Loaded 6)"
proof (intro allI)
  fix rd3 :: "string \<Rightarrow> Vec3" and rd2 :: "string \<Rightarrow> Vector2f" and st :: loader
  note pentagon = fan_triangulation
    [of "[(5, 0), (1, 1), (2, 0), (3, 9), (4, 0)]" 2 "''f 5 1/1 2//7 3/9/9 4''"
        "[''5'', ''1/1'', ''2//7'', ''3/9/9'', ''4'']" rd3 rd2 st
        "''v 0 0 0''" "''v 1 0 0''" "''v 1 1 0''" "''v 0 1 0''"]
  note short = fan_triangulation
    [of "[(1, 0), (2, 0)]" 0 "''f 1 2''" "[''1'', ''2'']" rd3 rd2 st
        "''v 0 0 0''" "''v 1 0 0''" "''v 1 1 0''" "''v 0 1 0''"]
  have triangles:
    "spec_fan_triangles [(5, 0), (1, 1), (2, 0), (3, 9), (4::int, 0::int)] =
       [((5, 0), (1, 1), (2, 0)), ((5, 0), (2, 0), (3, 9)), ((5, 0), (3, 9), (4, 0))]"
    by (simp add: spec_fan_triangles_def upt_rec numeral_eq_Suc)
  have nth: "spec_fan_triangles [(5, 0), (1, 1), (2, 0), (3, 9), (4::int, 0::int)] ! 2
       = ((5, 0), (3, 9), (4, 0))"
    using pentagon [THEN conjunct2, THEN conjunct1] by simp
  have fan: "process_line rd3 rd2 st ''f 5 1/1 2//7 3/9/9 4'' =
       Inr (st\<lparr>outVertices :=
              foldl (emit_triangle (positions st) (texcoords st)) (outVertices st)
                [((5, 0), (1, 1), (2, 0)), ((5, 0), (2, 0), (3, 9)), ((5, 0), (3, 9), (4, 0))]\<rparr>)"
    using pentagon [THEN conjunct2, THEN conjunct2, THEN conjunct1]
    by (simp only: words_pentagon parse_pentagon triangles) simp
  have skipped: "process_line rd3 rd2 st ''f 1 2'' = Inr st"
    using short [THEN conjunct2, THEN conjunct2, THEN conjunct2, THEN conjunct1]
    by (simp only: words_two) simp
  have quad: "LoadOBJ rd3 rd2
       (Some ''v 0 0 0\<newline>v 1 0 0\<newline>v 1 1 0\<newline>v 0 1 0\<newline>f 1 2 3 4'') [] =
       Inr (True,
            [vx (rd3 '' 0 0 0''), vy (rd3 '' 0 0 0''), vz (rd3 '' 0 0 0''), 0, 0,
             vx (rd3 '' 1 0 0''), vy (rd3 '' 1 0 0''), vz (rd3 '' 1 0 0''), 0, 0,
             vx (rd3 '' 1 1 0''), vy (rd3 '' 1 1 0''), vz (rd3 '' 1 1 0''), 0, 0,
             vx (rd3 '' 0 0 0''), vy (rd3 '' 0 0 0''), vz (rd3 '' 0 0 0''), 0, 0,
             vx (rd3 '' 1 1 0''), vy (rd3 '' 1 1 0''), vz (rd3 '' 1 1 0''), 0, 0,
             vx (rd3 '' 0 1 0''), vy (rd3 '' 0 1 0''), vz (rd3 '' 0 1 0''), 0, 0],
            Loaded 6)"
    using pentagon [THEN conjunct2, THEN conjunct2, THEN conjunct2, THEN conjunct2]
    by (simp add: isspace_def after_prefix_def)
  from nth fan skipped quad
  show "spec_fan_triangles [(5, 0), (1, 1), (2, 0), (3, 9), (4::int, 0::int)] ! 2
       = ((5, 0), (3, 9), (4, 0)) \<and>
     process_line rd3 rd2 st ''f 5 1/1 2//7 3/9/9 4'' =
       Inr (st\<lparr>outVertices :=
              foldl (emit_triangle (positions st) (texcoords st)) (outVertices st)
                [((5, 0), (1, 1), (2, 0)), ((5, 0), (2, 0), (3, 9)), ((5, 0), (3, 9), (4, 0))]\<rparr>) \<and>
     process_line rd3 rd2 st ''f 1 2'' = Inr st \<and>
     LoadOBJ rd3 rd2 (Some ''v 0 0 0\<newline>v 1 0 0\<newline>v 1 1 0\<newline>v 0 1 0\<newline>f 1 2 3 4'') [] =
       Inr (True,
            [vx (rd3 '' 0 0 0''), vy (rd3 '' 0 0 0''), vz (rd3 '' 0 0 0''), 0, 0,
             vx (rd3 '' 1 0 0''), vy (rd3 '' 1 0 0''), vz (rd3 '' 1 0 0''), 0, 0,
             vx (rd3 '' 1 1 0''), vy (rd3 '' 1 1 0''), vz (rd3 '' 1 1 0''), 0, 0,
             vx (rd3 '' 0 0 0''), vy (rd3 '' 0 0 0''), vz (rd3 '' 0 0 0''), 0, 0,
             vx (rd3 '' 1 1 0''), vy (rd3 '' 1 1 0''), vz (rd3 '' 1 1 0''), 0, 0,
             vx (rd3 '' 0 1 0''), vy (rd3 '' 0 1 0''), vz (rd3 '' 0 1 0''), 0, 0],
            Loaded 6)"
    by (intro conjI)
qed

section \<open>Skipped references\<close>

lemma parsed_tokens:
  "\<forall>t \<in> set tokens. \<exists>ix. parseIndex t = Inr ix \<Longrightarrow> \<exists>vs. map parseIndex tokens = map Inr vs"
proof (induction tokens)
  case Nil
  then show ?case by simp
next
  case (Cons t tokens)
  then obtain ix vs where "parseIndex t = Inr ix" and "map parseIndex tokens = map Inr vs"
    by auto
  then have "map parseIndex (t # tokens) = map Inr (ix # vs)"
    by simp
  then show ?case ..
qed

text \<open>
  C3, as the code has it. A reference whose position index is at most 0 or greater than
  the number of positions read so far appends nothing. A reference with a position index in
  range (fewer than \<open>2^31\<close> positions) and a texture index that is at most 0 or greater than
  the number of texture coordinates read so far is not skipped: the vertex is appended with
  texture coordinates \<open>(0, 0)\<close>. A token with no texture index has texture index 0, so it
  falls under this case. A face whose tokens all parse never ends the load, whatever the
  indices are.
\<close>

theorem skip_policy:
  "(vi \<le> 0 \<or> int (length ps) < vi \<longrightarrow> pushVertex ps ts out (vi, ti) = out) \<and>
   (0 < vi \<and> vi \<le> int (length ps) \<and> length ps < 2147483648 \<and>
    (ti \<le> 0 \<or> int (length ts) < ti) \<longrightarrow>
      pushVertex ps ts out (vi, ti) =
        out @ [vx (ps ! nat (vi - 1)), vy (ps ! nat (vi - 1)), vz (ps ! nat (vi - 1)), 0, 0]) \<and>
   (parseIndex tok = Inr (vi, ti) \<and>
    takeWhile (\<lambda>c. c \<noteq> CHR ''/'') (drop 1 (dropWhile (\<lambda>c. c \<noteq> CHR ''/'') tok)) = [] \<longrightarrow>
      ti = 0) \<and>
   (3 \<le> length tokens \<and> map parseIndex tokens = map Inr vs \<longrightarrow>
      (\<exists>out'. face st tokens = Inr (st\<lparr>outVertices := out'\<rparr>)))"
proof (intro conjI impI)
  assume "vi \<le> 0 \<or> int (length ps) < vi"
  then show "pushVertex ps ts out (vi, ti) = out"
    by (rule pushVertex_skip)
next
  assume "0 < vi \<and> vi \<le> int (length ps) \<and> length ps < 2147483648 \<and>
    (ti \<le> 0 \<or> int (length ts) < ti)"
  then show "pushVertex ps ts out (vi, ti) =
        out @ [vx (ps ! nat (vi - 1)), vy (ps ! nat (vi - 1)), vz (ps ! nat (vi - 1)), 0, 0]"
    by (intro pushVertex_default_uv) simp_all
next
  assume "parseIndex tok = Inr (vi, ti) \<and>
    takeWhile (\<lambda>c. c \<noteq> CHR ''/'') (drop 1 (dropWhile (\<lambda>c. c \<noteq> CHR ''/'') tok)) = []"
  then show "ti = 0"
    by (intro parseIndex_no_texture [of tok vi ti]) simp_all
next
  assume "3 \<le> length tokens \<and> map parseIndex tokens = map Inr vs"
  then have "face st tokens =
     Inr (st\<lparr>outVertices :=
            foldl (emit_triangle (positions st) (texcoords st)) (outVertices st)
              (spec_fan_triangles vs)\<rparr>)"
    by (intro face_spec) simp_all
  then show "\<exists>out'. face st tokens = Inr (st\<lparr>outVertices := out'\<rparr>)" ..
qed

text \<open>
  The claim as it was stated fails for the texture index: with one position and no texture
  coordinate, the token \<^verbatim>\<open>1/5\<close> has a texture index beyond the collection, and its vertex
  is appended all the same.
\<close>

theorem skip_policy_counterexample:
  "parseIndex ''1/5'' = Inr (1, 5) \<and>
   int (length ([] :: Vector2f list)) < 5 \<and>
   pushVertex [Vec3 1 2 3] [] [] (1, 5) = [1, 2, 3, 0, 0] \<and>
   pushVertex [Vec3 1 2 3] [] [] (1, 5) \<noteq> []"
  by (simp add: parseIndex_def stoi_def isdigit_def isspace_def digits_value_def
      pushVertex_def int_cast_def)

theorem skip_policy_witness:
  "pushVertex [Vec3 1 2 3] [Vector2f (1 / 2) (1 / 4)] [9] (0, 1) = [9] \<and>
   pushVertex [Vec3 1 2 3] [Vector2f (1 / 2) (1 / 4)] [9] (2, 1) = [9] \<and>
   pushVertex [Vec3 1 2 3] [Vector2f (1 / 2) (1 / 4)] [9] (1, 5) = [9, 1, 2, 3, 0, 0] \<and>
   takeWhile (\<lambda>c. c \<noteq> CHR ''/'') (drop 1 (dropWhile (\<lambda>c. c \<noteq> CHR ''/'') ''1//4'')) = [] \<and>
   parseIndex ''1//4'' = Inr (1, 0) \<and>
   (\<exists>out'. face \<lparr>positions = [Vec3 1 2 3], texcoords = [], outVertices = []\<rparr> [''1'', ''0'', ''7'']
      = Inr \<lparr>positions = [Vec3 1 2 3], texcoords = [], outVertices = out'\<rparr>)"
proof -
  note low = skip_policy
    [of 0 "[Vec3 1 2 3]" "[Vector2f (1 / 2) (1 / 4)]" "[9]" 1 "''1//4''" "[''1'', ''0'', ''7'']"
        "[(1, 0), (0, 0), (7, 0)]" "\<lparr>positions = [Vec3 1 2 3], texcoords = [], outVertices = []\<rparr>"]
  note high = skip_policy
    [of 2 "[Vec3 1 2 3]" "[Vector2f (1 / 2) (1 / 4)]" "[9]" 1 "''1//4''" "[''1'', ''0'', ''7'']"
        "[(1, 0), (0, 0), (7, 0)]" "\<lparr>positions = [Vec3 1 2 3], texcoords = [], outVertices = []\<rparr>"]
  note uv = skip_policy
    [of 1 "[Vec3 1 2 3]" "[Vector2f (1 / 2) (1 / 4)]" "[9]" 5 "''1//4''" "[''1'', ''0'', ''7'']"
        "[(1, 0), (0, 0), (7, 0)]" "\<lparr>positions = [Vec3 1 2 3], texcoords = [], outVertices = []\<rparr>"]
  note missing = skip_policy
    [of 1 "[Vec3 1 2 3]" "[Vector2f (1 / 2) (1 / 4)]" "[9]" 0 "''1//4''" "[''1'', ''0'', ''7'']"
        "[(1, 0), (0, 0), (7, 0)]" "\<lparr>positions = [Vec3 1 2 3], texcoords = [], outVertices = []\<rparr>"]
  have parsed: "map parseIndex [''1'', ''0'', ''7''] = map Inr [(1, 0), (0, 0), (7, 0)]"
    by (simp add: parseIndex_def stoi_def isdigit_def isspace_def digits_value_def)
  have token: "parseIndex ''1//4'' = Inr (1, 0)"
    by (simp add: parseIndex_def stoi_def isdigit_def isspace_def digits_value_def)
  have a: "pushVertex [Vec3 1 2 3] [Vector2f (1 / 2) (1 / 4)] [9] (0, 1) = [9]"
    using low [THEN conjunct1] by simp
  have b: "pushVertex [Vec3 1 2 3] [Vector2f (1 / 2) (1 / 4)] [9] (2, 1) = [9]"
    using high [THEN conjunct1] by simp
  have c: "pushVertex [Vec3 1 2 3] [Vector2f (1 / 2) (1 / 4)] [9] (1, 5) = [9, 1, 2, 3, 0, 0]"
    using uv [THEN conjunct2, THEN conjunct1] by simp
  have d: "\<exists>out'. face \<lparr>positions = [Vec3 1 2 3], texcoords = [], outVertices = []\<rparr>
      [''1'', ''0'', ''7'']
      = Inr \<lparr>positions = [Vec3 1 2 3], texcoords = [], outVertices = out'\<rparr>"
    using missing [THEN conjunct2, THEN conjunct2, THEN conjunct2] parsed by simp
  have slashes:
    "takeWhile (\<lambda>c. c \<noteq> CHR ''/'') (drop 1 (dropWhile (\<lambda>c. c \<noteq> CHR ''/'') ''1//4'')) = []"
    by simp
  from a b c slashes token d show ?thesis
    by (intro conjI)
qed

section \<open>The result of the loader\<close>

lemma process_line_other:
  assumes "read_words [] line = [] \<or> hd (read_words [] line) \<noteq> ''f''"
  shows "\<exists>st'. process_line rd3 rd2 st line = Inr st' \<and> outVertices st' = outVertices st"
  using assms by (auto simp add: process_line_def Let_def)

lemma process_lines_no_faces:
  "\<forall>l \<in> set ls. read_words [] l = [] \<or> hd (read_words [] l) \<noteq> ''f'' \<Longrightarrow>
   \<exists>st'. process_lines rd3 rd2 st ls = Inr st' \<and> outVertices st' = outVertices st"
proof (induction ls arbitrary: st)
  case Nil
  then show ?case by simp
next
  case (Cons l ls)
  then have "read_words [] l = [] \<or> hd (read_words [] l) \<noteq> ''f''"
    by simp
  then obtain st1 where one: "process_line rd3 rd2 st l = Inr st1"
    and same: "outVertices st1 = outVertices st"
    using process_line_other by blast
  from Cons obtain st' where "process_lines rd3 rd2 st1 ls = Inr st'"
    and "outVertices st' = outVertices st1"
    by fastforce
  with one same show ?case
    by simp
qed

lemma process_line_total:
  assumes "\<forall>tokens. read_words [] line = ''f'' # tokens \<and> 3 \<le> length tokens \<longrightarrow>
      (\<forall>t \<in> set tokens. \<exists>ix. parseIndex t = Inr ix)"
  shows "\<exists>st'. process_line rd3 rd2 st line = Inr st'"
proof (cases "read_words [] line = [] \<or> hd (read_words [] line) \<noteq> ''f''")
  case True
  then show ?thesis
    using process_line_other by blast
next
  case False
  then obtain tokens where ws: "read_words [] line = ''f'' # tokens"
    by (cases "read_words [] line") auto
  then have as_face: "process_line rd3 rd2 st line = face st tokens"
    by (rule process_line_face)
  show ?thesis
  proof (cases "3 \<le> length tokens")
    case True
    with assms ws have "\<forall>t \<in> set tokens. \<exists>ix. parseIndex t = Inr ix"
      by blast
    then obtain vs where "map parseIndex tokens = map Inr vs"
      using parsed_tokens by blast
    then show ?thesis
      using True by (simp add: as_face face_spec)
  next
    case False
    then show ?thesis
      by (simp add: as_face face_short)
  qed
qed

lemma process_lines_total:
  "\<forall>l \<in> set ls. \<forall>tokens. read_words [] l = ''f'' # tokens \<and> 3 \<le> length tokens \<longrightarrow>
      (\<forall>t \<in> set tokens. \<exists>ix. parseIndex t = Inr ix) \<Longrightarrow>
   \<exists>st'. process_lines rd3 rd2 st ls = Inr st'"
proof (induction ls arbitrary: st)
  case Nil
  then show ?case by simp
next
  case (Cons l ls)
  from Cons.prems have "\<forall>tokens. read_words [] l = ''f'' # tokens \<and> 3 \<le> length tokens \<longrightarrow>
      (\<forall>t \<in> set tokens. \<exists>ix. parseIndex t = Inr ix)"
    by (meson list.set_intros(1))
  then obtain st1 where one: "process_line rd3 rd2 st l = Inr st1"
    using process_line_total by blast
  from Cons.prems have "\<forall>l \<in> set ls. \<forall>tokens.
      read_words [] l = ''f'' # tokens \<and> 3 \<le> length tokens \<longrightarrow>
      (\<forall>t \<in> set tokens. \<exists>ix. parseIndex t = Inr ix)"
    by (meson list.set_intros(2))
  then obtain st' where "process_lines rd3 rd2 st1 ls = Inr st'"
    using Cons.IH by blast
  with one show ?case
    by simp
qed

lemma LoadOBJ_returned:
  assumes "LoadOBJ rd3 rd2 (Some content) [] = Inr (ok, out, msg)"
  shows "(ok \<longleftrightarrow> out \<noteq> []) \<and> (\<not> ok \<longrightarrow> msg = No_vertices) \<and>
         (ok \<longrightarrow> msg = Loaded (length out div 5))"
  using assms by (auto simp add: LoadOBJ_def split: sum.splits if_splits)

text \<open>
  C5. Called with an empty vector, as \<^verbatim>\<open>main\<close> does: a file that cannot be opened gives
  failure and an empty stream. Whenever the loader returns on a file that opened, it reports
  failure exactly when the stream is empty, that is when no vertex was pushed, and success
  otherwise, printing the vertex count \<open>length / 5\<close>. A file without a face record, the empty
  file among them, gives failure and an empty stream. The loader returns whenever every token
  of every face record with at least three tokens parses; the only other outcome is an
  exception of \<^verbatim>\<open>std::stoi\<close> on a malformed token.
\<close>

theorem load_result:
  "LoadOBJ rd3 rd2 None [] = Inr (False, [], Failed_to_open) \<and>
   (LoadOBJ rd3 rd2 (Some content) [] = Inr (ok, out, msg) \<longrightarrow>
      (ok \<longleftrightarrow> out \<noteq> []) \<and> (\<not> ok \<longrightarrow> msg = No_vertices) \<and>
      (ok \<longrightarrow> msg = Loaded (length out div 5))) \<and>
   ((\<forall>l \<in> set (getlines [] content). read_words [] l = [] \<or> hd (read_words [] l) \<noteq> ''f'') \<longrightarrow>
      LoadOBJ rd3 rd2 (Some content) [] = Inr (False, [], No_vertices)) \<and>
   ((\<forall>l \<in> set (getlines [] content). \<forall>tokens.
        read_words [] l = ''f'' # tokens \<and> 3 \<le> length tokens \<longrightarrow>
        (\<forall>t \<in> set tokens. \<exists>ix. parseIndex t = Inr ix)) \<longrightarrow>
      (\<exists>r. LoadOBJ rd3 rd2 (Some content) [] = Inr r))"
proof (intro conjI impI)
  show "LoadOBJ rd3 rd2 None [] = Inr (False, [], Failed_to_open)"
    by (simp add: LoadOBJ_def)
next
  assume "LoadOBJ rd3 rd2 (Some content) [] = Inr (ok, out, msg)"
  note returned = LoadOBJ_returned [OF this]
  from returned show "ok \<longleftrightarrow> out \<noteq> []" by blast
  from returned show "\<not> ok \<Longrightarrow> msg = No_vertices" by blast
  from returned show "ok \<Longrightarrow> msg = Loaded (length out div 5)" by blast
next
  assume "\<forall>l \<in> set (getlines [] content). read_words [] l = [] \<or> hd (read_words [] l) \<noteq> ''f''"
  then obtain st' where
    "process_lines rd3 rd2 \<lparr>positions = [], texcoords = [], outVertices = []\<rparr>
       (getlines [] content) = Inr st'"
    and "outVertices st' = []"
    using process_lines_no_faces
      [of "getlines [] content" rd3 rd2 "\<lparr>positions = [], texcoords = [], outVertices = []\<rparr>"]
    by auto
  then show "LoadOBJ rd3 rd2 (Some content) [] = Inr (False, [], No_vertices)"
    by (simp add: LoadOBJ_def)
next
  assume "\<forall>l \<in> set (getlines [] content). \<forall>tokens.
        read_words [] l = ''f'' # tokens \<and> 3 \<le> length tokens \<longrightarrow>
        (\<forall>t \<in> set tokens. \<exists>ix. parseIndex t = Inr ix)"
  then obtain st' where
    "process_lines rd3 rd2 \<lparr>positions = [], texcoords = [], outVertices = []\<rparr>
       (getlines [] content) = Inr st'"
    using process_lines_total
      [of "getlines [] content" rd3 rd2 "\<lparr>positions = [], texcoords = [], outVertices = []\<rparr>"]
    by auto
  then show "\<exists>r. LoadOBJ rd3 rd2 (Some content) [] = Inr r"
    by (cases "outVertices st' = []") (auto simp add: LoadOBJ_def)
qed

theorem load_result_witness:
  "\<forall>rd3 rd2.
     LoadOBJ rd3 rd2 None [] = Inr (False, [], Failed_to_open) \<and>
     LoadOBJ rd3 rd2 (Some []) [] = Inr (False, [], No_vertices) \<and>
     LoadOBJ rd3 rd2 (Some ''v 0 0 0\<newline>vt 0 0\<newline>'') [] = Inr (False, [], No_vertices) \<and>
     LoadOBJ rd3 rd2 (Some ''v 0 0 0\<newline>f 1 1 1\<newline>'') [] =
       Inr (True,
            [vx (rd3 '' 0 0 0''), vy (rd3 '' 0 0 0''), vz (rd3 '' 0 0 0''), 0, 0,
             vx (rd3 '' 0 0 0''), vy (rd3 '' 0 0 0''), vz (rd3 '' 0 0 0''), 0, 0,
             vx (rd3 '' 0 0 0''), vy (rd3 '' 0 0 0''), vz (rd3 '' 0 0 0''), 0, 0],
            Loaded 3) \<and>
     (\<exists>r. LoadOBJ rd3 rd2 (Some ''v 0 0 0\<newline>f 1 1 1\<newline>'') [] = Inr r)"
proof (intro allI)
  fix rd3 :: "string \<Rightarrow> Vec3" and rd2 :: "string \<Rightarrow> Vector2f"
  note empty = load_result [of rd3 rd2 "[]" False "[]" No_vertices]
  note no_face = load_result [of rd3 rd2 "''v 0 0 0\<newline>vt 0 0\<newline>''" False "[]" No_vertices]
  note triangle = load_result [of rd3 rd2 "''v 0 0 0\<newline>f 1 1 1\<newline>''" True
      "[vx (rd3 '' 0 0 0''), vy (rd3 '' 0 0 0''), vz (rd3 '' 0 0 0''), 0, 0,
        vx (rd3 '' 0 0 0''), vy (rd3 '' 0 0 0''), vz (rd3 '' 0 0 0''), 0, 0,
        vx (rd3 '' 0 0 0''), vy (rd3 '' 0 0 0''), vz (rd3 '' 0 0 0''), 0, 0]" "Loaded 3"]
  have a: "LoadOBJ rd3 rd2 None [] = Inr (False, [], Failed_to_open)"
    by (rule empty [THEN conjunct1])
  have b: "LoadOBJ rd3 rd2 (Some []) [] = Inr (False, [], No_vertices)"
    using empty [THEN conjunct2, THEN conjunct2, THEN conjunct1] by simp
  have c: "LoadOBJ rd3 rd2 (Some ''v 0 0 0\<newline>vt 0 0\<newline>'') [] = Inr (False, [], No_vertices)"
    using no_face [THEN conjunct2, THEN conjunct2, THEN conjunct1]
    by (simp add: isspace_def)
  have e: "\<exists>r. LoadOBJ rd3 rd2 (Some ''v 0 0 0\<newline>f 1 1 1\<newline>'') [] = Inr r"
    using triangle [THEN conjunct2, THEN conjunct2, THEN conjunct2]
    by (simp add: isspace_def parseIndex_def stoi_def isdigit_def digits_value_def)
  have d: "LoadOBJ rd3 rd2 (Some ''v 0 0 0\<newline>f 1 1 1\<newline>'') [] =
       Inr (True,
            [vx (rd3 '' 0 0 0''), vy (rd3 '' 0 0 0''), vz (rd3 '' 0 0 0''), 0, 0,
             vx (rd3 '' 0 0 0''), vy (rd3 '' 0 0 0''), vz (rd3 '' 0 0 0''), 0, 0,
             vx (rd3 '' 0 0 0''), vy (rd3 '' 0 0 0''), vz (rd3 '' 0 0 0''), 0, 0],
            Loaded 3)"
    by (simp add: LoadOBJ_def process_line_def face_def fan_loop.simps after_prefix_def
        int_cast_def pushVertex_def isspace_def parseIndex_def stoi_def isdigit_def
        digits_value_def Let_def)
  from a b c d e
  show "LoadOBJ rd3 rd2 None [] = Inr (False, [], Failed_to_open) \<and>
     LoadOBJ rd3 rd2 (Some []) [] = Inr (False, [], No_vertices) \<and>
     LoadOBJ rd3 rd2 (Some ''v 0 0 0\<newline>vt 0 0\<newline>'') [] = Inr (False, [], No_vertices) \<and>
     LoadOBJ rd3 rd2 (Some ''v 0 0 0\<newline>f 1 1 1\<newline>'') [] =
       Inr (True,
            [vx (rd3 '' 0 0 0''), vy (rd3 '' 0 0 0''), vz (rd3 '' 0 0 0''), 0, 0,
             vx (rd3 '' 0 0 0''), vy (rd3 '' 0 0 0''), vz (rd3 '' 0 0 0''), 0, 0,
             vx (rd3 '' 0 0 0''), vy (rd3 '' 0 0 0''), vz (rd3 '' 0 0 0''), 0, 0],
            Loaded 3) \<and>
     (\<exists>r. LoadOBJ rd3 rd2 (Some ''v 0 0 0\<newline>f 1 1 1\<newline>'') [] = Inr r)"
    by (intro conjI)
qed


section \<open>The layout of the stream\<close>

lemma pushVertex_length:
  "length (pushVertex ps ts out ix) = length out \<or>
   length (pushVertex ps ts out ix) = length out + 5"
  by (cases ix) (simp add: pushVertex_def Let_def)

lemma pushVertex_whole:
  "5 dvd length out \<Longrightarrow> 5 dvd length (pushVertex ps ts out ix)"
  using pushVertex_length [of ps ts out ix] by auto

lemma fan_loop_whole:
  "fan_loop ps ts tokens v0 i out = Inr out' \<Longrightarrow> 5 dvd length out \<Longrightarrow> 5 dvd length out'"
proof (induction ps ts tokens v0 i out rule: fan_loop.induct)
  case (1 ps ts tokens v0 i out)
  show ?case
  proof (cases "i + 1 < length tokens")
    case True
    from "1.prems"(1) True obtain v1 v2
      where first: "parseIndex (tokens ! i) = Inr v1"
        and second: "parseIndex (tokens ! (i + 1)) = Inr v2"
        and rest: "fan_loop ps ts tokens v0 (i + 1)
            (pushVertex ps ts (pushVertex ps ts (pushVertex ps ts out v0) v1) v2) = Inr out'"
      by (subst (asm) fan_loop.simps) (auto split: sum.splits)
    have "5 dvd length (pushVertex ps ts (pushVertex ps ts (pushVertex ps ts out v0) v1) v2)"
      using "1.prems"(2) by (intro pushVertex_whole)
    with True first second rest show ?thesis
      by (rule "1.IH")
  next
    case False
    with "1.prems" show ?thesis
      by (subst (asm) fan_loop.simps) simp
  qed
qed

lemma process_line_whole:
  assumes "process_line rd3 rd2 st line = Inr st'" and "5 dvd length (outVertices st)"
  shows "5 dvd length (outVertices st')"
proof (cases "read_words [] line = [] \<or> hd (read_words [] line) \<noteq> ''f''")
  case True
  then show ?thesis
    using process_line_other [of line rd3 rd2 st] assms by auto
next
  case False
  then obtain tokens where "read_words [] line = ''f'' # tokens"
    by (cases "read_words [] line") auto
  then have "face st tokens = Inr st'"
    using assms(1) by (simp add: process_line_face)
  then show ?thesis
    using assms(2) fan_loop_whole
    by (auto simp add: face_def split: if_splits sum.splits)
qed

lemma process_lines_whole:
  "process_lines rd3 rd2 st ls = Inr st' \<Longrightarrow> 5 dvd length (outVertices st) \<Longrightarrow>
   5 dvd length (outVertices st')"
proof (induction ls arbitrary: st)
  case Nil
  then show ?case by simp
next
  case (Cons l ls)
  from Cons.prems(1) obtain st1 where one: "process_line rd3 rd2 st l = Inr st1"
    and rest: "process_lines rd3 rd2 st1 ls = Inr st'"
    by (auto split: sum.splits)
  from one Cons.prems(2) have "5 dvd length (outVertices st1)"
    by (rule process_line_whole)
  with rest show ?case
    by (rule Cons.IH)
qed

lemma pushVertex_in_range_length:
  "0 < fst ix \<Longrightarrow> fst ix \<le> int (length ps) \<Longrightarrow> length ps < 2147483648 \<Longrightarrow>
   length (pushVertex ps ts out ix) = length out + 5"
  by (cases ix) (simp add: pushVertex_def int_cast_small Let_def)

lemma emit_triangles_in_range:
  "\<forall>tri \<in> set tris. \<forall>ix \<in> {fst tri, fst (snd tri), snd (snd tri)}.
      0 < fst ix \<and> fst ix \<le> int (length ps) \<Longrightarrow>
   length ps < 2147483648 \<Longrightarrow> 15 dvd length out \<Longrightarrow>
   15 dvd length (foldl (emit_triangle ps ts) out tris)"
proof (induction tris arbitrary: out)
  case Nil
  then show ?case by simp
next
  case (Cons tri tris)
  obtain a b c where tri: "tri = (a, b, c)"
    by (cases tri) auto
  from Cons.prems(1) have
    "0 < fst a" "fst a \<le> int (length ps)"
    "0 < fst b" "fst b \<le> int (length ps)"
    "0 < fst c" "fst c \<le> int (length ps)"
    by (simp_all add: tri)
  then have "length (emit_triangle ps ts out tri) = length out + 15"
    using Cons.prems(2) by (simp add: tri emit_triangle_def pushVertex_in_range_length)
  then have "15 dvd length (emit_triangle ps ts out tri)"
    using Cons.prems(3) by simp
  moreover from Cons.prems(1) have
    "\<forall>tri \<in> set tris. \<forall>ix \<in> {fst tri, fst (snd tri), snd (snd tri)}.
      0 < fst ix \<and> fst ix \<le> int (length ps)"
    by simp
  ultimately have "15 dvd length (foldl (emit_triangle ps ts) (emit_triangle ps ts out tri) tris)"
    using Cons.prems(2) by (intro Cons.IH)
  then show ?case
    by simp
qed

lemma spec_fan_triangles_members:
  assumes "tri \<in> set (spec_fan_triangles vs)"
  shows "fst tri \<in> set vs \<and> fst (snd tri) \<in> set vs \<and> snd (snd tri) \<in> set vs"
proof -
  from assms obtain i where i: "1 \<le> i" "i < length vs - 1"
    and tri: "tri = (vs ! 0, vs ! i, vs ! (i + 1))"
    by (auto simp add: spec_fan_triangles_def)
  from i have "0 < length vs" "i < length vs" "i + 1 < length vs"
    by linarith+
  then have "vs ! 0 \<in> set vs" "vs ! i \<in> set vs" "vs ! (i + 1) \<in> set vs"
    by (simp_all only: nth_mem)
  then show ?thesis
    by (simp add: tri)
qed

lemma in_range_tokens:
  "list_all (\<lambda>t. case parseIndex t of
                    Inl e \<Rightarrow> False
                  | Inr ix \<Rightarrow> 0 < fst ix \<and> fst ix \<le> int n) tokens \<Longrightarrow>
   \<exists>vs. map parseIndex tokens = map Inr vs \<and> (\<forall>ix \<in> set vs. 0 < fst ix \<and> fst ix \<le> int n)"
proof (induction tokens)
  case Nil
  then show ?case by simp
next
  case (Cons t tokens)
  then obtain ix where head: "parseIndex t = Inr ix" "0 < fst ix" "fst ix \<le> int n"
    by (auto split: sum.splits)
  from Cons obtain vs where tail: "map parseIndex tokens = map Inr vs"
    "\<forall>ix \<in> set vs. 0 < fst ix \<and> fst ix \<le> int n"
    by auto
  from head tail have "map parseIndex (t # tokens) = map Inr (ix # vs) \<and>
      (\<forall>ix \<in> set (ix # vs). 0 < fst ix \<and> fst ix \<le> int n)"
    by simp
  then show ?case ..
qed

lemma face_in_range:
  assumes "3 \<le> length tokens"
    and "list_all (\<lambda>t. case parseIndex t of
                    Inl e \<Rightarrow> False
                  | Inr ix \<Rightarrow> 0 < fst ix \<and> fst ix \<le> int (length (positions st))) tokens"
    and "length (positions st) < 2147483648"
    and "15 dvd length (outVertices st)"
  shows "\<exists>st'. face st tokens = Inr st' \<and> positions st' = positions st \<and>
           15 dvd length (outVertices st')"
proof -
  from assms(2) obtain vs where parsed: "map parseIndex tokens = map Inr vs"
    and valid: "\<forall>ix \<in> set vs. 0 < fst ix \<and> fst ix \<le> int (length (positions st))"
    using in_range_tokens by blast
  have "\<forall>tri \<in> set (spec_fan_triangles vs). \<forall>ix \<in> {fst tri, fst (snd tri), snd (snd tri)}.
      0 < fst ix \<and> fst ix \<le> int (length (positions st))"
    using valid spec_fan_triangles_members [of _ vs] by blast
  then have "15 dvd length (foldl (emit_triangle (positions st) (texcoords st)) (outVertices st)
      (spec_fan_triangles vs))"
    using assms(3,4) by (rule emit_triangles_in_range)
  then show ?thesis
    by (simp add: face_spec [OF parsed assms(1)])
qed

lemma process_lines_in_range:
  "refs_in_range (length (positions st)) ls \<Longrightarrow> 15 dvd length (outVertices st) \<Longrightarrow>
   \<exists>st'. process_lines rd3 rd2 st ls = Inr st' \<and> 15 dvd length (outVertices st')"
proof (induction ls arbitrary: st)
  case Nil
  then show ?case by simp
next
  case (Cons l ls)
  have "\<exists>st1. process_line rd3 rd2 st l = Inr st1 \<and> 15 dvd length (outVertices st1) \<and>
      refs_in_range (length (positions st1)) ls"
  proof (cases "read_words [] l")
    case Nil
    with Cons.prems show ?thesis
      by (simp add: process_line_def)
  next
    case (Cons prefix tokens)
    show ?thesis
    proof (cases "prefix = ''f'' \<and> 3 \<le> length tokens")
      case True
      with Cons Cons.prems(1) have
        small: "length (positions st) < 2147483648"
        and refs: "list_all (\<lambda>t. case parseIndex t of
                    Inl e \<Rightarrow> False
                  | Inr ix \<Rightarrow> 0 < fst ix \<and> fst ix \<le> int (length (positions st))) tokens"
        and rest: "refs_in_range (length (positions st)) ls"
        by simp_all
      from True refs small Cons.prems(2) obtain st1
        where "face st tokens = Inr st1" "positions st1 = positions st"
          "15 dvd length (outVertices st1)"
        using face_in_range by blast
      with True Cons rest show ?thesis
        by (simp add: process_line_face)
    next
      case False
      with Cons Cons.prems show ?thesis
        by (auto simp add: process_line_def face_def Let_def split: if_splits)
    qed
  qed
  then obtain st1 where one: "process_line rd3 rd2 st l = Inr st1"
    and whole: "15 dvd length (outVertices st1)"
    and refs: "refs_in_range (length (positions st1)) ls"
    by blast
  from refs whole obtain st' where "process_lines rd3 rd2 st1 ls = Inr st'"
    "15 dvd length (outVertices st')"
    using Cons.IH by blast
  with one show ?case
    by simp
qed

text \<open>
  C6, as the code has it. Whenever the loader returns, the stream holds five reals for each
  vertex. When no reference is skipped (\<open>refs_in_range\<close>) the loader returns and the number
  of vertices is a multiple of 3, so the stream is made of whole triangles.
\<close>

theorem stream_layout:
  "(LoadOBJ rd3 rd2 (Some content) [] = Inr (ok, out, msg) \<longrightarrow>
      5 dvd length out \<and> length out = 5 * vertexCount out) \<and>
   (refs_in_range 0 (getlines [] content) \<longrightarrow>
      (\<exists>ok out msg. LoadOBJ rd3 rd2 (Some content) [] = Inr (ok, out, msg) \<and>
         3 dvd vertexCount out \<and> length out = 15 * (vertexCount out div 3)))"
proof (intro conjI impI)
  assume returned: "LoadOBJ rd3 rd2 (Some content) [] = Inr (ok, out, msg)"
  then obtain st' where
    "process_lines rd3 rd2 \<lparr>positions = [], texcoords = [], outVertices = []\<rparr>
       (getlines [] content) = Inr st'" and "out = outVertices st'"
    by (auto simp add: LoadOBJ_def split: sum.splits if_splits)
  then have "5 dvd length out"
    using process_lines_whole [of rd3 rd2 _ "getlines [] content" st'] by simp
  then show "5 dvd length out" "length out = 5 * vertexCount out"
    by (simp_all add: vertexCount_def)
next
  assume "refs_in_range 0 (getlines [] content)"
  then obtain st' where lines:
    "process_lines rd3 rd2 \<lparr>positions = [], texcoords = [], outVertices = []\<rparr>
       (getlines [] content) = Inr st'" and whole: "15 dvd length (outVertices st')"
    using process_lines_in_range
      [of "\<lparr>positions = [], texcoords = [], outVertices = []\<rparr>" "getlines [] content" rd3 rd2]
    by auto
  from whole obtain k where k: "length (outVertices st') = 15 * k" ..
  then have count: "vertexCount (outVertices st') = 3 * k"
    by (simp add: vertexCount_def)
  then have "3 dvd vertexCount (outVertices st') \<and>
      length (outVertices st') = 15 * (vertexCount (outVertices st') div 3)"
    using k by simp
  with lines show "\<exists>ok out msg. LoadOBJ rd3 rd2 (Some content) [] = Inr (ok, out, msg) \<and>
         3 dvd vertexCount out \<and> length out = 15 * (vertexCount out div 3)"
    by (cases "outVertices st' = []") (auto simp add: LoadOBJ_def)
qed

text \<open>
  The claim as it was stated fails when a reference is skipped: the file below declares one
  position, its face names positions 2 and 3 as well, and the load succeeds with a single
  vertex.
\<close>

theorem stream_layout_counterexample:
  "LoadOBJ (\<lambda>s. Vec3 0 0 0) (\<lambda>s. Vector2f 0 0) (Some ''v 0 0 0\<newline>f 1 2 3\<newline>'') [] =
     Inr (True, [0, 0, 0, 0, 0], Loaded 1) \<and>
   vertexCount [0, 0, 0, 0, 0] = 1 \<and> \<not> 3 dvd vertexCount [0, 0, 0, 0, 0]"
  by (simp add: LoadOBJ_def process_line_def face_def fan_loop.simps after_prefix_def
      int_cast_def pushVertex_def isspace_def parseIndex_def stoi_def isdigit_def
      digits_value_def vertexCount_def Let_def)

theorem stream_layout_witness:
  "\<forall>rd3 rd2.
     refs_in_range 0
       (getlines [] ''v 0 0 0\<newline>v 1 0 0\<newline>v 1 1 0\<newline>v 0 1 0\<newline>f 1 2 3 4\<newline>'') \<and>
     (\<exists>ok out msg.
        LoadOBJ rd3 rd2
          (Some ''v 0 0 0\<newline>v 1 0 0\<newline>v 1 1 0\<newline>v 0 1 0\<newline>f 1 2 3 4\<newline>'') []
          = Inr (ok, out, msg) \<and>
        3 dvd vertexCount out \<and> length out = 15 * (vertexCount out div 3)) \<and>
     LoadOBJ rd3 rd2 (Some ''v 0 0 0\<newline>f 1 2 3\<newline>'') [] =
       Inr (True, [vx (rd3 '' 0 0 0''), vy (rd3 '' 0 0 0''), vz (rd3 '' 0 0 0''), 0, 0],
            Loaded 1) \<and>
     5 dvd length [vx (rd3 '' 0 0 0''), vy (rd3 '' 0 0 0''), vz (rd3 '' 0 0 0''), 0, 0]"
proof (intro allI)
  fix rd3 :: "string \<Rightarrow> Vec3" and rd2 :: "string \<Rightarrow> Vector2f"
  note quad = stream_layout
    [of rd3 rd2 "''v 0 0 0\<newline>v 1 0 0\<newline>v 1 1 0\<newline>v 0 1 0\<newline>f 1 2 3 4\<newline>''" ok out msg]
  note lone = stream_layout
    [of rd3 rd2 "''v 0 0 0\<newline>f 1 2 3\<newline>''" True
      "[vx (rd3 '' 0 0 0''), vy (rd3 '' 0 0 0''), vz (rd3 '' 0 0 0''), 0, 0]" "Loaded 1"]
  have refs: "refs_in_range 0
       (getlines [] ''v 0 0 0\<newline>v 1 0 0\<newline>v 1 1 0\<newline>v 0 1 0\<newline>f 1 2 3 4\<newline>'')"
    by (simp add: isspace_def parseIndex_def stoi_def isdigit_def digits_value_def)
  have triangles: "\<exists>ok out msg.
        LoadOBJ rd3 rd2
          (Some ''v 0 0 0\<newline>v 1 0 0\<newline>v 1 1 0\<newline>v 0 1 0\<newline>f 1 2 3 4\<newline>'') []
          = Inr (ok, out, msg) \<and>
        3 dvd vertexCount out \<and> length out = 15 * (vertexCount out div 3)"
    using quad [THEN conjunct2, THEN mp, OF refs] .
  have loaded: "LoadOBJ rd3 rd2 (Some ''v 0 0 0\<newline>f 1 2 3\<newline>'') [] =
       Inr (True, [vx (rd3 '' 0 0 0''), vy (rd3 '' 0 0 0''), vz (rd3 '' 0 0 0''), 0, 0],
            Loaded 1)"
    by (simp add: LoadOBJ_def process_line_def face_def fan_loop.simps after_prefix_def
        int_cast_def pushVertex_def isspace_def parseIndex_def stoi_def isdigit_def
        digits_value_def Let_def)
  have whole: "5 dvd length [vx (rd3 '' 0 0 0''), vy (rd3 '' 0 0 0''), vz (rd3 '' 0 0 0''), 0, 0]"
    using lone [THEN conjunct1, THEN mp, OF loaded] by (rule conjunct1)
  from refs triangles loaded whole
  show "refs_in_range 0
       (getlines [] ''v 0 0 0\<newline>v 1 0 0\<newline>v 1 1 0\<newline>v 0 1 0\<newline>f 1 2 3 4\<newline>'') \<and>
     (\<exists>ok out msg.
        LoadOBJ rd3 rd2
          (Some ''v 0 0 0\<newline>v 1 0 0\<newline>v 1 1 0\<newline>v 0 1 0\<newline>f 1 2 3 4\<newline>'') []
          = Inr (ok, out, msg) \<and>
        3 dvd vertexCount out \<and> length out = 15 * (vertexCount out div 3)) \<and>
     LoadOBJ rd3 rd2 (Some ''v 0 0 0\<newline>f 1 2 3\<newline>'') [] =
       Inr (True, [vx (rd3 '' 0 0 0''), vy (rd3 '' 0 0 0''), vz (rd3 '' 0 0 0''), 0, 0],
            Loaded 1) \<and>
     5 dvd length [vx (rd3 '' 0 0 0''), vy (rd3 '' 0 0 0''), vz (rd3 '' 0 0 0''), 0, 0]"
    by (intro conjI)
qed

end
